theory Spec2Isabelle
  imports Main "HOL-Library.Word" "HOL-Library.Char_ord" "HOL-Library.List_Lexorder" "HOL-Library.AList"
begin

section \<open>The peer scheduler of client/torrent/scheduler/scheduler.go\<close>

text \<open>
  The scheduler is a Go struct whose methods perform effects: they close sockets, send
  on channels, hand events to the event loop and call collaborators (torrent archive,
  connection factory, dispatcher, connection-state tracker, tracker over HTTP). The
  embedding passes the state explicitly (record \<open>state\<close>) and records every effect, in
  program order, in the field \<open>trace\<close>. Results of input/output (what the archive, the
  network or a collaborator answers) are parameters, collected in the record \<open>env\<close>.
  Log calls (\<open>s.log()\<close>, \<open>s.logf\<close>) have no effect on the state below and are left out.
  Pointers handed to the scheduler (\<open>*torlib.MetaInfo\<close>, \<open>*handshake\<close>, \<open>*conn\<close>, \<open>*dispatcher\<close>)
  are taken to be non-nil, as the code takes them.

  The second part of the development puts the methods together as goroutines that
  interleave, to follow \<open>Stop\<close> through the shutdown.
\<close>

subsection \<open>Data\<close>

text \<open>\<open>torlib.PeerID\<close> and \<open>torlib.InfoHash\<close> are fixed-length byte arrays; only equality
  and their \<open>String()\<close> (a parameter, see \<open>env\<close>) are used.\<close>

datatype PeerID = PeerID string

datatype InfoHash = InfoHash string

text \<open>Go's \<open>error\<close> values: the two package-level errors of the file, and errors made by
  \<open>errors.New\<close> / \<open>fmt.Errorf\<close> or returned by a collaborator, which carry a message.\<close>

datatype error = ErrTorrentAlreadyRegistered | ErrSchedulerStopped | New string

fun Error :: "error \<Rightarrow> string" where
  "Error ErrTorrentAlreadyRegistered = ''torrent already registered in scheduler''"
| "Error ErrSchedulerStopped = ''scheduler has been stopped''"
| "Error (New m) = m"

text \<open>A raw \<open>net.Conn\<close> and a \<open>chan error\<close> are references; a number names each.\<close>

type_synonym netConn = nat

type_synonym chanRef = nat

text \<open>\<open>storage.Torrent\<close>: the methods the scheduler calls (\<open>InfoHash()\<close>, \<open>Length()\<close>,
  \<open>BytesDownloaded()\<close>, both \<open>int64\<close>) and the name under which the archive knows it.\<close>

record Torrent =
  tName :: string
  tInfoHash :: InfoHash
  Length :: "64 word"
  BytesDownloaded :: "64 word"

record MetaInfo =
  miName :: string
  miInfoHash :: InfoHash

record handshake =
  hPeerID :: PeerID
  hName :: string
  hInfoHash :: InfoHash

text \<open>\<open>*conn\<close>: the validated connection the connection factory returns; it wraps the raw
  connection \<open>cNC\<close>.\<close>

record conn =
  cPeerID :: PeerID
  cInfoHash :: InfoHash
  cNC :: netConn

text \<open>\<open>*dispatcher\<close>: a reference (\<open>dRef\<close>) and its field \<open>Torrent\<close>.\<close>

record dispatcher =
  dRef :: nat
  dTorrent :: Torrent

record PeerInfo =
  piPeerID :: PeerID
  piIP :: string
  piPort :: int

record torrentControl =
  Errors :: "chanRef list"
  Dispatcher :: dispatcher
  Complete :: bool

definition newTorrentControl :: "dispatcher \<Rightarrow> torrentControl" where
  "newTorrentControl d = \<lparr>Errors = [], Dispatcher = d, Complete = False\<rparr>"

datatype event =
    newTorrentEvent Torrent chanRef
  | incomingHandshakeEvent netConn handshake
  | incomingConnEvent conn Torrent
  | outgoingConnEvent conn Torrent
  | failedHandshakeEvent PeerID InfoHash
  | announceTickEvent
  | announceResponseEvent InfoHash "PeerInfo list"
  | announceFailureEvent dispatcher
  | preemptionTickEvent
  | cleanupBlacklistEvent
  | emitStatsEvent

record Request =
  Method :: string
  Scheme :: string
  Host :: string
  Path :: string
  RawQuery :: string

record Response =
  StatusCode :: int
  Body :: string

record Config =
  TrackerAddr :: string
  AnnounceTimeout :: int
  DialTimeout :: int

text \<open>The effects of the scheduler's methods: on sockets and connections (\<open>NetClose\<close> is
  \<open>nc.Close()\<close> on a raw connection, \<open>ConnClose\<close> is \<open>c.Close()\<close> on a handshaked one), on the
  event loop (\<open>Send\<close>, whether or not the loop takes the event), on channels, on the network
  and the tracker, on the dispatchers, on the map of torrent controls (a lookup, a store)
  and, for \<open>Stop\<close>, the statements of the teardown.\<close>

datatype action =
    NetClose netConn
  | ConnClose conn
  | Send event
  | ChanSend chanRef "error option"
  | Dial string int
  | HttpDo int Request
  | BodyClose
  | DispatcherNew Torrent
  | LookupControl InfoHash
  | StoreControl InfoHash
  | AddConn dispatcher conn
  | CloseDone
  | ListenerClose
  | EventLoopStop
  | WgWait

text \<open>A buffered channel of errors: its capacity and the values waiting in it (a Go
  \<open>error\<close> may be \<open>nil\<close>, here \<open>None\<close>).\<close>

record chan =
  cap :: nat
  buf :: "error option list"

record eventLoop =
  stopped :: bool
  queue :: "event list"

record connState =
  pending :: "(PeerID \<times> InfoHash) list"
  active :: "((PeerID \<times> InfoHash) \<times> conn) list"
  blacklist :: "PeerID list"

text \<open>The scheduler's fields, the heap of channels (\<open>chans\<close>, \<open>nextChan\<close>) and the effects
  so far (\<open>trace\<close>). The maps of the Go code (\<open>torrentControls\<close>, the tracker's tables) are
  association lists: \<open>Stop\<close> ranges over them, in an order Go leaves open; here it is the
  order of the list.\<close>

record state =
  peerID :: PeerID
  ip :: string
  port :: string
  zone :: string
  config :: Config
  torrentControls :: "(InfoHash \<times> torrentControl) list"
  connState :: connState
  eventLoop :: eventLoop
  doneClosed :: bool
  listenerClosed :: bool
  wg :: int
  chans :: "chanRef \<rightharpoonup> chan"
  nextChan :: chanRef
  trace :: "action list"

text \<open>What the collaborators and the network answer: the torrent archive
  (\<open>GetTorrent\<close>), the handshake code (\<open>receiveHandshake\<close>, the two methods of the connection
  factory), \<open>net.DialTimeout\<close>, \<open>http.Client.Do\<close> under a timeout, \<open>bencode.Unmarshal\<close> into
  the announcer's response (its peers), the dispatcher factory, \<open>dispatcher.AddConn\<close>, and the
  \<open>String()\<close> of the two identifiers.\<close>

record env =
  GetTorrent :: "string \<Rightarrow> InfoHash \<Rightarrow> error + Torrent"
  receiveHandshake :: "netConn \<Rightarrow> error + handshake"
  ReciprocateHandshake :: "netConn \<Rightarrow> Torrent \<Rightarrow> handshake \<Rightarrow> error + conn"
  SendAndReceiveHandshake :: "netConn \<Rightarrow> Torrent \<Rightarrow> error + conn"
  netDialTimeout :: "string \<Rightarrow> int \<Rightarrow> error + netConn"
  clientDo :: "int \<Rightarrow> Request \<Rightarrow> error + Response"
  bencodeUnmarshal :: "string \<Rightarrow> error + PeerInfo list"
  dispatcherFactoryNew :: "Torrent \<Rightarrow> dispatcher"
  dispatcherAddConn :: "dispatcher \<Rightarrow> conn \<Rightarrow> error option"
  InfoHashString :: "InfoHash \<Rightarrow> string"
  PeerIDString :: "PeerID \<Rightarrow> string"

definition emit :: "action \<Rightarrow> state \<Rightarrow> state" where
  "emit a s = s\<lparr>trace := trace s @ [a]\<rparr>"

subsection \<open>Channels\<close>

text \<open>\<open>make(chan error, n)\<close>: a new, empty channel of capacity \<open>n\<close>.\<close>

definition makeChan :: "nat \<Rightarrow> state \<Rightarrow> chanRef \<times> state" where
  "makeChan n s =
     (nextChan s,
      s\<lparr>chans := (chans s)(nextChan s \<mapsto> \<lparr>cap = n, buf = []\<rparr>), nextChan := Suc (nextChan s)\<rparr>)"

text \<open>\<open>errc <- v\<close> with no receiver waiting: the value goes into the buffer when there is
  room; otherwise the sender blocks (\<open>None\<close>). A send on a \<open>nil\<close> channel blocks forever.\<close>

definition chanSend :: "chanRef \<Rightarrow> error option \<Rightarrow> state \<Rightarrow> state option" where
  "chanSend c v s =
     (case chans s c of
        None \<Rightarrow> None
      | Some ch \<Rightarrow>
          if length (buf ch) < cap ch
          then Some (emit (ChanSend c v) (s\<lparr>chans := (chans s)(c \<mapsto> ch\<lparr>buf := buf ch @ [v]\<rparr>)\<rparr>))
          else None)"

subsection \<open>The event loop\<close>

text \<open>Modelled from the spec: the event loop (the interface \<open>eventLoop\<close>, whose
  implementation is not in scheduler.go). \<open>Send\<close> "enqueues an event for later processing;
  returns false (instead of blocking or panicking) if the loop has already been told to
  stop"; \<open>Stop\<close> tells it to stop.\<close>

definition eventLoopSend :: "event \<Rightarrow> state \<Rightarrow> bool \<times> state" where
  "eventLoopSend e s =
     (if stopped (eventLoop s) then (False, emit (Send e) s)
      else (True, emit (Send e) (s\<lparr>eventLoop := (eventLoop s)\<lparr>queue := queue (eventLoop s) @ [e]\<rparr>\<rparr>)))"

subsection \<open>AddTorrent\<close>

definition AddTorrent :: "env \<Rightarrow> MetaInfo \<Rightarrow> state \<Rightarrow> (chanRef \<times> state) option" where
  "AddTorrent E mi s =
     (let (errc, s1) = makeChan 1 s in
      case GetTorrent E (miName mi) (miInfoHash mi) of
        Inl err \<Rightarrow> map_option (Pair errc) (chanSend errc (Some err) s1)
      | Inr t \<Rightarrow>
          (let (ok, s2) = eventLoopSend (newTorrentEvent t errc) s1 in
           if \<not> ok then map_option (Pair errc) (chanSend errc (Some ErrSchedulerStopped) s2)
           else Some (errc, s2)))"

subsection \<open>Formatting\<close>

text \<open>\<open>strconv.FormatInt(i, 10)\<close> and the verb \<open>%d\<close>: decimal digits, with a sign for a
  negative number.\<close>

fun digitsOf :: "nat \<Rightarrow> string" where
  "digitsOf n =
     (if n < 10 then [''0123456789'' ! n]
      else digitsOf (n div 10) @ [''0123456789'' ! (n mod 10)])"

declare digitsOf.simps [simp del]

definition FormatInt :: "int \<Rightarrow> string" where
  "FormatInt i = (if i < 0 then CHR ''-'' # digitsOf (nat (- i)) else digitsOf (nat i))"

subsection \<open>Handshakes\<close>

definition handshakeIncomingConn :: "env \<Rightarrow> netConn \<Rightarrow> state \<Rightarrow> state" where
  "handshakeIncomingConn E nc s =
     (case receiveHandshake E nc of
        Inl err \<Rightarrow> emit (NetClose nc) s
      | Inr h \<Rightarrow> snd (eventLoopSend (incomingHandshakeEvent nc h) s))"

definition doInitIncomingConn ::
  "env \<Rightarrow> netConn \<Rightarrow> handshake \<Rightarrow> state \<Rightarrow> (error + conn \<times> Torrent) \<times> state" where
  "doInitIncomingConn E nc remoteHandshake s =
     (case GetTorrent E (hName remoteHandshake) (hInfoHash remoteHandshake) of
        Inl err \<Rightarrow>
          (Inl (New (''failed to open torrent storage: '' @ Error err)), emit (NetClose nc) s)
      | Inr t \<Rightarrow>
          (case ReciprocateHandshake E nc t remoteHandshake of
             Inl err \<Rightarrow>
               (Inl (New (''failed to reciprocate handshake: '' @ Error err)),
                emit (NetClose nc) s)
           | Inr c \<Rightarrow> (Inr (c, t), s)))"

definition initIncomingConn :: "env \<Rightarrow> netConn \<Rightarrow> handshake \<Rightarrow> state \<Rightarrow> state" where
  "initIncomingConn E nc remoteHandshake s =
     (let (r, s1) = doInitIncomingConn E nc remoteHandshake s;
          e = (case r of
                 Inl err \<Rightarrow>
                   failedHandshakeEvent (hPeerID remoteHandshake) (hInfoHash remoteHandshake)
               | Inr (c, t) \<Rightarrow> incomingConnEvent c t)
      in snd (eventLoopSend e s1))"

definition doInitOutgoingConn ::
  "env \<Rightarrow> PeerID \<Rightarrow> string \<Rightarrow> int \<Rightarrow> Torrent \<Rightarrow> state \<Rightarrow> (error + conn) \<times> state" where
  "doInitOutgoingConn E peerID' ip' port' t s =
     (let addr = ip' @ '':'' @ FormatInt port';
          s1 = emit (Dial addr (DialTimeout (config s))) s
      in case netDialTimeout E addr (DialTimeout (config s)) of
           Inl err \<Rightarrow> (Inl (New (''failed to dial peer: '' @ Error err)), s1)
         | Inr nc \<Rightarrow>
             (case SendAndReceiveHandshake E nc t of
                Inl err \<Rightarrow>
                  (Inl (New (''failed to handshake peer: '' @ Error err)), emit (NetClose nc) s1)
              | Inr c \<Rightarrow>
                  if cPeerID c \<noteq> peerID'
                  then (Inl (New ''unexpected peer id from handshaked conn''),
                        emit (ConnClose c) s1)
                  else (Inr c, s1)))"

definition initOutgoingConn ::
  "env \<Rightarrow> PeerID \<Rightarrow> string \<Rightarrow> int \<Rightarrow> Torrent \<Rightarrow> state \<Rightarrow> state" where
  "initOutgoingConn E peerID' ip' port' t s =
     (let (r, s1) = doInitOutgoingConn E peerID' ip' port' t s;
          e = (case r of
                 Inl err \<Rightarrow> failedHandshakeEvent peerID' (tInfoHash t)
               | Inr c \<Rightarrow> outgoingConnEvent c t)
      in snd (eventLoopSend e s1))"

subsection \<open>Adding a validated connection\<close>

text \<open>Modelled from the spec: the connection-state tracker (type \<open>connState\<close>, whose code is
  not in scheduler.go). \<open>MovePendingToActive\<close> "fails on duplicate peer/torrent or blacklist
  hit": the transition "must fail if the slot is already active (duplicate connection) or
  if the peer is blacklisted"; otherwise the connection is no longer pending and is active.
  \<open>ActiveConns\<close> lists the active connections.\<close>

definition MovePendingToActive :: "conn \<Rightarrow> connState \<Rightarrow> error + connState" where
  "MovePendingToActive c cs =
     (let k = (cPeerID c, cInfoHash c) in
      if map_of (active cs) k \<noteq> None then Inl (New ''duplicate connection'')
      else if cPeerID c \<in> set (blacklist cs) then Inl (New ''peer is blacklisted'')
      else Inr (cs\<lparr>pending := removeAll k (pending cs), active := active cs @ [(k, c)]\<rparr>))"

definition ActiveConns :: "connState \<Rightarrow> conn list" where
  "ActiveConns cs = map snd (active cs)"

definition addOutgoingConn :: "env \<Rightarrow> conn \<Rightarrow> Torrent \<Rightarrow> state \<Rightarrow> error option \<times> state" where
  "addOutgoingConn E c t s =
     (case MovePendingToActive c (connState s) of
        Inl err \<Rightarrow>
          (Some (New (''cannot add conn to scheduler: '' @ Error err)), emit (ConnClose c) s)
      | Inr cs' \<Rightarrow>
          (let s1 = emit (LookupControl (tInfoHash t)) (s\<lparr>connState := cs'\<rparr>) in
           case map_of (torrentControls s1) (tInfoHash t) of
             None \<Rightarrow> (Some (New ''torrent must be created before sending handshake''), s1)
           | Some ctrl \<Rightarrow>
               (let s2 = emit (AddConn (Dispatcher ctrl) c) s1 in
                case dispatcherAddConn E (Dispatcher ctrl) c of
                  Some err \<Rightarrow>
                    (Some (New (''cannot add conn to dispatcher: '' @ Error err)), s2)
                | None \<Rightarrow> (None, s2))))"

definition addIncomingConn :: "env \<Rightarrow> conn \<Rightarrow> Torrent \<Rightarrow> state \<Rightarrow> error option \<times> state" where
  "addIncomingConn E c t s =
     (case MovePendingToActive c (connState s) of
        Inl err \<Rightarrow>
          (Some (New (''cannot add conn to scheduler: '' @ Error err)), emit (ConnClose c) s)
      | Inr cs' \<Rightarrow>
          (let s1 = emit (LookupControl (tInfoHash t)) (s\<lparr>connState := cs'\<rparr>);
               (ctrl, s2) =
                 (case map_of (torrentControls s1) (tInfoHash t) of
                    None \<Rightarrow>
                      (let ctrl = newTorrentControl (dispatcherFactoryNew E t);
                           s' = emit (DispatcherNew t) s1
                       in (ctrl,
                           emit (StoreControl (tInfoHash t))
                             (s'\<lparr>torrentControls :=
                                   AList.update (tInfoHash t) ctrl (torrentControls s')\<rparr>)))
                  | Some ctrl \<Rightarrow> (ctrl, s1));
               s3 = emit (AddConn (Dispatcher ctrl) c) s2
           in case dispatcherAddConn E (Dispatcher ctrl) c of
                Some err \<Rightarrow> (Some (New (''cannot add conn to dispatcher: '' @ Error err)), s3)
              | None \<Rightarrow> (None, s3)))"

text \<open>The dispatcher a connection for torrent \<open>t\<close> is handed to: the one of the torrent's
  control, or for an incoming connection without a control the one the factory makes.\<close>

definition targetDispatcher :: "env \<Rightarrow> Torrent \<Rightarrow> state \<Rightarrow> dispatcher" where
  "targetDispatcher E t s =
     (case map_of (torrentControls s) (tInfoHash t) of
        None \<Rightarrow> dispatcherFactoryNew E t
      | Some ctrl \<Rightarrow> Dispatcher ctrl)"

subsection \<open>Announcing to the tracker\<close>

text \<open>\<open>url.Values\<close> (a map from a key to its values), \<open>Values.Add\<close>, \<open>url.QueryEscape\<close> and
  \<open>Values.Encode\<close> of Go's \<open>net/url\<close>: \<open>Encode\<close> writes \<open>key=value\<close> pairs, escaped, joined by
  \<open>&\<close> and sorted by key.\<close>

type_synonym Values = "(string \<times> string list) list"

definition valuesAdd :: "string \<Rightarrow> string \<Rightarrow> Values \<Rightarrow> Values" where
  "valuesAdd k v m =
     (case map_of m k of
        None \<Rightarrow> m @ [(k, [v])]
      | Some vs \<Rightarrow> AList.update k (vs @ [v]) m)"

definition shouldEscape :: "char \<Rightarrow> bool" where
  "shouldEscape c =
     (if (CHR ''a'' \<le> c \<and> c \<le> CHR ''z'') \<or> (CHR ''A'' \<le> c \<and> c \<le> CHR ''Z'')
         \<or> (CHR ''0'' \<le> c \<and> c \<le> CHR ''9'') then False
      else if c \<in> set ''-_.~'' then False
      else True)"

definition escapeChar :: "char \<Rightarrow> string" where
  "escapeChar c =
     (if \<not> shouldEscape c then [c]
      else if c = CHR '' '' then ''+''
      else [CHR ''%'', ''0123456789ABCDEF'' ! (of_char c div 16),
            ''0123456789ABCDEF'' ! (of_char c mod 16)])"

definition QueryEscape :: "string \<Rightarrow> string" where
  "QueryEscape s = concat (map escapeChar s)"

definition Encode :: "Values \<Rightarrow> string" where
  "Encode m =
     foldl (\<lambda>b p. (if b \<noteq> [] then b @ ''&'' else b) @ p) []
       (concat (map (\<lambda>k. map (\<lambda>v. QueryEscape k @ ''='' @ QueryEscape v)
                             (case map_of m k of None \<Rightarrow> [] | Some vs \<Rightarrow> vs))
                    (sort (map fst m))))"

definition announceValues :: "env \<Rightarrow> Torrent \<Rightarrow> state \<Rightarrow> Values" where
  "announceValues E t s =
     (let v = [];
          v = valuesAdd ''info_hash'' (InfoHashString E (tInfoHash t)) v;
          v = valuesAdd ''peer_id'' (PeerIDString E (peerID s)) v;
          v = valuesAdd ''port'' (port s) v;
          v = valuesAdd ''ip'' (ip s) v;
          v = valuesAdd ''dc'' (zone s) v;
          downloaded = BytesDownloaded t;
          v = valuesAdd ''downloaded'' (FormatInt (sint downloaded)) v;
          v = valuesAdd ''left'' (FormatInt (sint (Length t - downloaded))) v;
          v = valuesAdd ''uploaded'' ''0'' v;
          v = valuesAdd ''event'' [] v
      in v)"

definition doAnnounce :: "env \<Rightarrow> Torrent \<Rightarrow> state \<Rightarrow> (error + PeerInfo list) \<times> state" where
  "doAnnounce E t s =
     (let req = \<lparr>Method = ''GET'', Scheme = ''http'', Host = TrackerAddr (config s),
                 Path = ''/announce'', RawQuery = Encode (announceValues E t s)\<rparr>;
          s1 = emit (HttpDo (AnnounceTimeout (config s)) req) s
      in case clientDo E (AnnounceTimeout (config s)) req of
           Inl err \<Rightarrow> (Inl (New (''request failed: '' @ Error err)), s1)
         | Inr resp \<Rightarrow>
             if StatusCode resp \<noteq> 200
             then (Inl (New (''request not ok: '' @ FormatInt (StatusCode resp) @ '' - ''
                              @ Body resp)),
                   emit BodyClose s1)
             else (case bencodeUnmarshal E (Body resp) of
                     Inl err \<Rightarrow> (Inl (New (''unmarshal failed: '' @ Error err)), emit BodyClose s1)
                   | Inr peers \<Rightarrow> (Inr peers, emit BodyClose s1)))"

definition announce :: "env \<Rightarrow> dispatcher \<Rightarrow> state \<Rightarrow> state" where
  "announce E d s =
     (let (r, s1) = doAnnounce E (dTorrent d) s;
          e = (case r of
                 Inl err \<Rightarrow> announceFailureEvent d
               | Inr peers \<Rightarrow> announceResponseEvent (tInfoHash (dTorrent d)) peers)
      in snd (eventLoopSend e s1))"

subsection \<open>Starting the scheduler\<close>

text \<open>The state \<open>New\<close> builds when it succeeds (no torrent, no connection, an event loop
  that runs, no channel; the port is kept as \<open>strconv.Itoa\<close> of the peer context's) and
  \<open>start\<close>, which adds the three loops to the wait group before it spawns them.\<close>

definition newState :: "PeerID \<Rightarrow> string \<Rightarrow> int \<Rightarrow> string \<Rightarrow> Config \<Rightarrow> state" where
  "newState pid ip' port' zone' cfg =
     \<lparr>peerID = pid, ip = ip', port = FormatInt port', zone = zone', config = cfg,
      torrentControls = [], connState = \<lparr>pending = [], active = [], blacklist = []\<rparr>,
      eventLoop = \<lparr>stopped = False, queue = []\<rparr>, doneClosed = False, listenerClosed = False,
      wg = 0, chans = Map.empty, nextChan = 0, trace = []\<rparr>"

definition start :: "state \<Rightarrow> state" where
  "start s = s\<lparr>wg := wg s + 3\<rparr>"

subsection \<open>Stop: the teardown\<close>

text \<open>The function \<open>Stop\<close> hands to \<open>once.Do\<close>, one statement at a time. The program counter
  says which statement is next; \<open>AtRangeConns\<close> is the call of \<open>ActiveConns()\<close> that starts
  the first loop, which carries the connections it still has to close. When none is left,
  the \<open>range\<close> over \<open>s.torrentControls\<close> starts: \<open>AtNotify errcs ctrls\<close> is inside the two
  nested loops, with the channels of the current control's \<open>Errors\<close> that are still to be
  sent on, and the controls still to be visited.
  \<open>teardownStep\<close> returns \<open>None\<close> where the statement cannot proceed: \<open>close\<close> of a closed
  channel panics, \<open>wg.Wait()\<close> blocks until the counter is zero, a send blocks while the
  channel's buffer is full. It returns no next counter when the function returns.\<close>

datatype stopPC =
    AtCloseDone
  | AtListenerClose
  | AtEventLoopStop
  | AtWait
  | AtRangeConns
  | AtCloseConns "conn list"
  | AtNotify "chanRef list" "(InfoHash \<times> torrentControl) list"

fun teardownStep :: "stopPC \<Rightarrow> state \<Rightarrow> (stopPC option \<times> state) option" where
  "teardownStep AtCloseDone s =
     (if doneClosed s then None
      else Some (Some AtListenerClose, emit CloseDone (s\<lparr>doneClosed := True\<rparr>)))"
| "teardownStep AtListenerClose s =
     Some (Some AtEventLoopStop, emit ListenerClose (s\<lparr>listenerClosed := True\<rparr>))"
| "teardownStep AtEventLoopStop s =
     Some (Some AtWait, emit EventLoopStop (s\<lparr>eventLoop := (eventLoop s)\<lparr>stopped := True\<rparr>\<rparr>))"
| "teardownStep AtWait s =
     (if wg s = 0 then Some (Some AtRangeConns, emit WgWait s) else None)"
| "teardownStep AtRangeConns s = Some (Some (AtCloseConns (ActiveConns (connState s))), s)"
| "teardownStep (AtCloseConns (c # cs)) s = Some (Some (AtCloseConns cs), emit (ConnClose c) s)"
| "teardownStep (AtCloseConns []) s = Some (Some (AtNotify [] (torrentControls s)), s)"
| "teardownStep (AtNotify (errc # errcs) ctrls) s =
     map_option (Pair (Some (AtNotify errcs ctrls)))
       (chanSend errc (Some ErrSchedulerStopped) s)"
| "teardownStep (AtNotify [] ((h, ctrl) # ctrls)) s = Some (Some (AtNotify (Errors ctrl) ctrls), s)"
| "teardownStep (AtNotify [] []) s = Some (None, s)"

text \<open>What the teardown is expected to have done when it is over. The result channels
  registered in the torrent controls (the pending errors of the spec's data model), control
  by control:\<close>

definition pendingErrors :: "state \<Rightarrow> chanRef list" where
  "pendingErrors s = concat (map (\<lambda>(h, ctrl). Errors ctrl) (torrentControls s))"

text \<open>and the whole sequence of effects: the three signals, the wait, a close for every
  active connection, a send of \<open>ErrSchedulerStopped\<close> for every registered channel.\<close>

definition fullTeardown :: "state \<Rightarrow> action list" where
  "fullTeardown s =
     [CloseDone, ListenerClose, EventLoopStop, WgWait]
     @ map ConnClose (ActiveConns (connState s))
     @ map (\<lambda>errc. ChanSend errc (Some ErrSchedulerStopped)) (pendingErrors s)"

subsection \<open>The goroutines of the scheduler\<close>

text \<open>
  The scheduler runs as several goroutines over the shared state: the three loops \<open>start\<close>
  spawns (\<open>runEventLoop\<close>, \<open>listenLoop\<close>, \<open>tickerLoop\<close>), the short-lived workers (handshakes,
  dials, announces, callers of \<open>AddTorrent\<close> and readers of its channel) and any number of
  callers of \<open>Stop\<close> (the calls are numbered; \<open>callers\<close> says how far each one is). The
  system is an interleaving of their atomic steps, each named by a label; \<open>hist\<close> is the
  history of effects, each with the goroutine that caused it.

  \<open>sync.Once\<close>, \<open>sync.WaitGroup\<close> and channels are Go's: \<open>once.Do(f)\<close> runs \<open>f\<close> in the first
  caller and returns in any other caller only after that \<open>f\<close> has returned; \<open>wg.Done()\<close>
  decrements the counter.
\<close>

datatype goroutine = StopCaller nat | EventLoopG | ListenG | TickerG | Worker

datatype caller = Idle | Called | InTeardown stopPC | Returned

datatype onceState = Fresh | Running | Finished

datatype loopState = Looping | Exited

record sys =
  sched :: state
  hist :: "(goroutine \<times> action) list"
  once :: onceState
  callers :: "nat \<Rightarrow> caller"
  eventLoopG :: loopState
  listenG :: loopState
  tickerG :: loopState

text \<open>A goroutine \<open>g\<close> has brought the shared state to \<open>s'\<close>: the effects it added to the
  trace enter the history under its name.\<close>

definition commit :: "goroutine \<Rightarrow> state \<Rightarrow> sys \<Rightarrow> sys" where
  "commit g s' \<sigma> =
     \<sigma>\<lparr>sched := s',
       hist := hist \<sigma> @ map (Pair g) (drop (length (trace (sched \<sigma>))) (trace s'))\<rparr>"

definition wgDone :: "state \<Rightarrow> state" where
  "wgDone s = s\<lparr>wg := wg s - 1\<rparr>"

text \<open>\<open>v := <-errc\<close>: takes the first value waiting in the channel (blocks when there is
  none).\<close>

definition chanRecv :: "chanRef \<Rightarrow> state \<Rightarrow> state option" where
  "chanRecv c s =
     (case chans s c of
        None \<Rightarrow> None
      | Some ch \<Rightarrow>
          (case buf ch of
             [] \<Rightarrow> None
           | v # rest \<Rightarrow> Some (s\<lparr>chans := (chans s)(c \<mapsto> ch\<lparr>buf := rest\<rparr>)\<rparr>)))"

datatype label =
    CallStop nat
  | OnceEnter nat
  | OnceSkip nat
  | Teardown nat
  | TickerTick event
  | TickerExit
  | ListenExit
  | Handle "(InfoHash \<times> torrentControl) list" connState "chanRef \<rightharpoonup> chan"
  | EventLoopExit
  | HandshakeIncoming netConn
  | InitIncoming netConn handshake
  | InitOutgoing PeerID string int Torrent
  | Announce dispatcher
  | CallAddTorrent MetaInfo
  | Receive chanRef

text \<open>
  \<^item> \<open>CallStop i\<close>: caller \<open>i\<close> enters \<open>Stop\<close> and reaches \<open>s.once.Do\<close>.
  \<^item> \<open>OnceEnter i\<close>: \<open>once.Do\<close> finds the \<open>Once\<close> unused and starts the function in \<open>i\<close>.
  \<^item> \<open>OnceSkip i\<close>: \<open>once.Do\<close> returns in \<open>i\<close>, the function having returned in another caller.
    While it runs there, \<open>i\<close> has no step: it waits.
  \<^item> \<open>Teardown i\<close>: the caller that runs the function executes its next statement; after the
    last one the function returns, \<open>once.Do\<close> marks the \<open>Once\<close> done and \<open>Stop\<close> returns.
  \<^item> \<open>TickerTick e\<close>: \<open>tickerLoop\<close> forwards a tick. \<open>TickerExit\<close>: its \<open>select\<close> takes the case
    \<open><-s.done\<close>, possible once that channel is closed; it calls \<open>wg.Done()\<close> and returns.
  \<^item> \<open>ListenExit\<close>: \<open>Accept\<close> returns an error (it does once the listener is closed, and may
    before); \<open>listenLoop\<close> leaves its loop and calls \<open>wg.Done()\<close>.
  \<^item> \<open>Handle tcs cs chs\<close>: modelled from the spec, the handler of an event, whose code is not
    in scheduler.go: it runs in the event loop's goroutine while \<open>Run\<close> has not returned,
    takes an event from the queue and may rewrite the state the loop owns (torrent
    controls, a Go map, so with distinct keys; connection-state tracker) and send on
    channels. \<open>EventLoopExit\<close>: \<open>Run\<close> returns, which it does only when the loop has been told
    to stop; \<open>runEventLoop\<close> calls \<open>wg.Done()\<close>.
  \<^item> the workers run the functions above; \<open>Receive c\<close> is a caller of \<open>AddTorrent\<close> reading
    its channel.
\<close>

fun step :: "env \<Rightarrow> label \<Rightarrow> sys \<Rightarrow> sys option" where
  "step E (CallStop i) \<sigma> =
     (if callers \<sigma> i = Idle then Some (\<sigma>\<lparr>callers := (callers \<sigma>)(i := Called)\<rparr>) else None)"
| "step E (OnceEnter i) \<sigma> =
     (if callers \<sigma> i = Called \<and> once \<sigma> = Fresh
      then Some (\<sigma>\<lparr>once := Running, callers := (callers \<sigma>)(i := InTeardown AtCloseDone)\<rparr>)
      else None)"
| "step E (OnceSkip i) \<sigma> =
     (if callers \<sigma> i = Called \<and> once \<sigma> = Finished
      then Some (\<sigma>\<lparr>callers := (callers \<sigma>)(i := Returned)\<rparr>)
      else None)"
| "step E (Teardown i) \<sigma> =
     (case callers \<sigma> i of
        InTeardown pc \<Rightarrow>
          (case teardownStep pc (sched \<sigma>) of
             None \<Rightarrow> None
           | Some (Some pc', s') \<Rightarrow>
               Some ((commit (StopCaller i) s' \<sigma>)\<lparr>callers := (callers \<sigma>)(i := InTeardown pc')\<rparr>)
           | Some (None, s') \<Rightarrow>
               Some ((commit (StopCaller i) s' \<sigma>)
                       \<lparr>once := Finished, callers := (callers \<sigma>)(i := Returned)\<rparr>))
      | _ \<Rightarrow> None)"
| "step E (TickerTick e) \<sigma> =
     (if tickerG \<sigma> = Looping
         \<and> e \<in> {announceTickEvent, preemptionTickEvent, cleanupBlacklistEvent, emitStatsEvent}
      then Some (commit TickerG (snd (eventLoopSend e (sched \<sigma>))) \<sigma>)
      else None)"
| "step E TickerExit \<sigma> =
     (if tickerG \<sigma> = Looping \<and> doneClosed (sched \<sigma>)
      then Some ((commit TickerG (wgDone (sched \<sigma>)) \<sigma>)\<lparr>tickerG := Exited\<rparr>)
      else None)"
| "step E ListenExit \<sigma> =
     (if listenG \<sigma> = Looping
      then Some ((commit ListenG (wgDone (sched \<sigma>)) \<sigma>)\<lparr>listenG := Exited\<rparr>)
      else None)"
| "step E (Handle tcs cs chs) \<sigma> =
     (if eventLoopG \<sigma> = Looping \<and> queue (eventLoop (sched \<sigma>)) \<noteq> [] \<and> distinct (map fst tcs)
      then Some (commit EventLoopG
                   ((sched \<sigma>)\<lparr>torrentControls := tcs, connState := cs, chans := chs,
                      eventLoop := (eventLoop (sched \<sigma>))
                        \<lparr>queue := tl (queue (eventLoop (sched \<sigma>)))\<rparr>\<rparr>) \<sigma>)
      else None)"
| "step E EventLoopExit \<sigma> =
     (if eventLoopG \<sigma> = Looping \<and> stopped (eventLoop (sched \<sigma>))
      then Some ((commit EventLoopG (wgDone (sched \<sigma>)) \<sigma>)\<lparr>eventLoopG := Exited\<rparr>)
      else None)"
| "step E (HandshakeIncoming nc) \<sigma> =
     Some (commit Worker (handshakeIncomingConn E nc (sched \<sigma>)) \<sigma>)"
| "step E (InitIncoming nc h) \<sigma> = Some (commit Worker (initIncomingConn E nc h (sched \<sigma>)) \<sigma>)"
| "step E (InitOutgoing p ip' port' t) \<sigma> =
     Some (commit Worker (initOutgoingConn E p ip' port' t (sched \<sigma>)) \<sigma>)"
| "step E (Announce d) \<sigma> = Some (commit Worker (announce E d (sched \<sigma>)) \<sigma>)"
| "step E (CallAddTorrent mi) \<sigma> =
     map_option (\<lambda>(errc, s'). commit Worker s' \<sigma>) (AddTorrent E mi (sched \<sigma>))"
| "step E (Receive c) \<sigma> = map_option (\<lambda>s'. commit Worker s' \<sigma>) (chanRecv c (sched \<sigma>))"

fun run :: "env \<Rightarrow> label list \<Rightarrow> sys \<Rightarrow> sys option" where
  "run E [] \<sigma> = Some \<sigma>"
| "run E (l # ls) \<sigma> = (case step E l \<sigma> of None \<Rightarrow> None | Some \<sigma>' \<Rightarrow> run E ls \<sigma>')"

text \<open>The system right after \<open>New\<close>: \<open>start\<close> has run, the three loops are looping, nobody has
  called \<open>Stop\<close>.\<close>

definition initSys :: "state \<Rightarrow> sys" where
  "initSys s =
     \<lparr>sched = start s, hist = [], once = Fresh, callers = (\<lambda>i. Idle),
      eventLoopG = Looping, listenG = Looping, tickerG = Looping\<rparr>"

text \<open>What the callers of \<open>Stop\<close> have done so far.\<close>

definition isStopCaller :: "goroutine \<Rightarrow> bool" where
  "isStopCaller g = (case g of StopCaller i \<Rightarrow> True | _ \<Rightarrow> False)"

definition stopActs :: "sys \<Rightarrow> action list" where
  "stopActs \<sigma> = map snd (filter (\<lambda>(g, a). isStopCaller g) (hist \<sigma>))"

definition loopsExited :: "sys \<Rightarrow> bool" where
  "loopsExited \<sigma> = (eventLoopG \<sigma> = Exited \<and> listenG \<sigma> = Exited \<and> tickerG \<sigma> = Exited)"

subsection \<open>Where the teardown stands\<close>

text \<open>The three signals of the first three statements.\<close>

definition signalled :: "state \<Rightarrow> bool" where
  "signalled s = (doneClosed s \<and> listenerClosed s \<and> stopped (eventLoop s))"

text \<open>What holds when the caller running the teardown is about to execute the statement at
  the given program counter: what the callers of \<open>Stop\<close> have done so far, which signals
  are set and, from \<open>wg.Wait()\<close> on, that the three loops have exited. The loops carry
  what is left of the list they visit.\<close>

fun teardownAt :: "stopPC \<Rightarrow> sys \<Rightarrow> bool" where
  "teardownAt AtCloseDone \<sigma> = (stopActs \<sigma> = [] \<and> \<not> doneClosed (sched \<sigma>))"
| "teardownAt AtListenerClose \<sigma> = (stopActs \<sigma> = [CloseDone] \<and> doneClosed (sched \<sigma>))"
| "teardownAt AtEventLoopStop \<sigma> =
     (stopActs \<sigma> = [CloseDone, ListenerClose] \<and> doneClosed (sched \<sigma>)
      \<and> listenerClosed (sched \<sigma>))"
| "teardownAt AtWait \<sigma> =
     (stopActs \<sigma> = [CloseDone, ListenerClose, EventLoopStop] \<and> signalled (sched \<sigma>))"
| "teardownAt AtRangeConns \<sigma> =
     (stopActs \<sigma> = [CloseDone, ListenerClose, EventLoopStop, WgWait] \<and> signalled (sched \<sigma>)
      \<and> loopsExited \<sigma>)"
| "teardownAt (AtCloseConns cs) \<sigma> =
     (signalled (sched \<sigma>) \<and> loopsExited \<sigma> \<and>
      (\<exists>closed. ActiveConns (connState (sched \<sigma>)) = closed @ cs \<and>
         stopActs \<sigma> = [CloseDone, ListenerClose, EventLoopStop, WgWait] @ map ConnClose closed))"
| "teardownAt (AtNotify errcs ctrls) \<sigma> =
     (signalled (sched \<sigma>) \<and> loopsExited \<sigma> \<and>
      (\<exists>visited notified.
         torrentControls (sched \<sigma>) = visited @ ctrls \<and>
         concat (map (\<lambda>(h, ctrl). Errors ctrl) visited) = notified @ errcs \<and>
         stopActs \<sigma> =
           [CloseDone, ListenerClose, EventLoopStop, WgWait]
           @ map ConnClose (ActiveConns (connState (sched \<sigma>)))
           @ map (\<lambda>errc. ChanSend errc (Some ErrSchedulerStopped)) notified))"


text \<open>The wait group counts the loops that have not exited.\<close>

definition wgCounts :: "sys \<Rightarrow> bool" where
  "wgCounts \<sigma> =
     (wg (sched \<sigma>) =
        (if eventLoopG \<sigma> = Looping then 1 else 0) + (if listenG \<sigma> = Looping then 1 else 0)
        + (if tickerG \<sigma> = Looping then 1 else 0))"

definition waiting :: "caller \<Rightarrow> bool" where
  "waiting c = (c = Idle \<or> c = Called)"

text \<open>The invariant of the system, by the state of the \<open>Once\<close>.\<close>

definition stopInv :: "sys \<Rightarrow> bool" where
  "stopInv \<sigma> =
     (wgCounts \<sigma> \<and>
      (case once \<sigma> of
         Fresh \<Rightarrow> stopActs \<sigma> = [] \<and> \<not> doneClosed (sched \<sigma>) \<and> (\<forall>i. waiting (callers \<sigma> i))
       | Running \<Rightarrow>
           (\<exists>i pc. callers \<sigma> i = InTeardown pc \<and> teardownAt pc \<sigma> \<and>
              (\<forall>j. j \<noteq> i \<longrightarrow> waiting (callers \<sigma> j)))
       | Finished \<Rightarrow>
           signalled (sched \<sigma>) \<and> loopsExited \<sigma> \<and> stopActs \<sigma> = fullTeardown (sched \<sigma>) \<and>
           (\<forall>i. waiting (callers \<sigma> i) \<or> callers \<sigma> i = Returned)))"

text \<open>What a goroutine other than the event loop and the callers of \<open>Stop\<close> leaves alone:
  the state the event loop owns, the stop signals and the wait group.\<close>

definition untouched :: "state \<Rightarrow> state \<Rightarrow> bool" where
  "untouched s s' =
     (torrentControls s' = torrentControls s \<and> connState s' = connState s \<and>
      doneClosed s' = doneClosed s \<and> listenerClosed s' = listenerClosed s \<and>
      wg s' = wg s \<and> stopped (eventLoop s') = stopped (eventLoop s))"

subsection \<open>A concrete peer, for evaluation\<close>

definition exTorrent :: Torrent where
  "exTorrent = \<lparr>tName = ''ubuntu'', tInfoHash = InfoHash ''h1'', Length = 100, BytesDownloaded = 40\<rparr>"

definition exEnv :: env where
  "exEnv =
     \<lparr>GetTorrent = (\<lambda>n h. if n = ''ubuntu'' then Inr exTorrent else Inl (New ''torrent not found'')),
      receiveHandshake = (\<lambda>nc. if nc = 7
         then Inr \<lparr>hPeerID = PeerID ''peerB'', hName = ''ubuntu'', hInfoHash = InfoHash ''h1''\<rparr>
         else Inl (New ''EOF'')),
      ReciprocateHandshake = (\<lambda>nc t h. if nc = 7
         then Inr \<lparr>cPeerID = hPeerID h, cInfoHash = hInfoHash h, cNC = nc\<rparr>
         else Inl (New ''broken pipe'')),
      SendAndReceiveHandshake = (\<lambda>nc t. if nc = 9 then Inl (New ''i/o timeout'')
         else Inr \<lparr>cPeerID = PeerID ''peerB'', cInfoHash = tInfoHash t, cNC = nc\<rparr>),
      netDialTimeout = (\<lambda>addr d. if addr = ''10.0.0.2:5000'' then Inr 8
         else if addr = ''10.0.0.3:5000'' then Inr 9 else Inl (New ''connection refused'')),
      clientDo = (\<lambda>d req. if Host req = ''tracker:80''
         then Inr \<lparr>StatusCode = 200, Body = ''d5:peerslee''\<rparr>
         else if Host req = ''busy:80'' then Inr \<lparr>StatusCode = 503, Body = ''busy''\<rparr>
         else Inl (New ''no such host'')),
      bencodeUnmarshal = (\<lambda>b. if b = ''d5:peerslee'' then Inr [] else Inl (New ''bad bencode'')),
      dispatcherFactoryNew = (\<lambda>t. \<lparr>dRef = 0, dTorrent = t\<rparr>),
      dispatcherAddConn = (\<lambda>d c. if cPeerID c = PeerID ''peerX''
         then Some (New ''conn rejected'') else None),
      InfoHashString = (\<lambda>h. case h of InfoHash x \<Rightarrow> x),
      PeerIDString = (\<lambda>p. case p of PeerID x \<Rightarrow> x)\<rparr>"

definition exConfig :: Config where
  "exConfig = \<lparr>TrackerAddr = ''tracker:80'', AnnounceTimeout = 5, DialTimeout = 3\<rparr>"

definition exState :: state where
  "exState = start (newState (PeerID ''peerA'') ''10.0.0.1'' 5000 ''dc 1'' exConfig)"

definition exConn :: "string \<Rightarrow> netConn \<Rightarrow> conn" where
  "exConn p nc = \<lparr>cPeerID = PeerID p, cInfoHash = InfoHash ''h1'', cNC = nc\<rparr>"

definition exBusy :: state where
  "exBusy = exState\<lparr>connState :=
     \<lparr>pending = [], active = [((PeerID ''peerB'', InfoHash ''h1''), exConn ''peerB'' 7)],
      blacklist = [PeerID ''peerZ'']\<rparr>\<rparr>"

text \<open>A run of the system: a torrent is added and registered with its result channel 0, a
  peer connects, two callers call \<open>Stop\<close>; caller 0 runs the teardown, caller 1 waits.\<close>

definition exCtrl :: torrentControl where
  "exCtrl = \<lparr>Errors = [0], Dispatcher = \<lparr>dRef = 0, dTorrent = exTorrent\<rparr>, Complete = False\<rparr>"

definition exSys :: sys where
  "exSys = initSys (newState (PeerID ''peerA'') ''10.0.0.1'' 5000 ''dc 1'' exConfig)"

definition exRunToWait :: "label list" where
  "exRunToWait =
     [CallAddTorrent \<lparr>miName = ''ubuntu'', miInfoHash = InfoHash ''h1''\<rparr>,
      Handle [(InfoHash ''h1'', exCtrl)]
        \<lparr>pending = [], active = [((PeerID ''peerB'', InfoHash ''h1''), exConn ''peerB'' 7)],
         blacklist = []\<rparr>
        [0 \<mapsto> \<lparr>cap = 1, buf = []\<rparr>],
      CallStop 0, CallStop 1, OnceEnter 0, Teardown 0, Teardown 0, Teardown 0,
      TickerExit, ListenExit, EventLoopExit, Teardown 0, Teardown 0]"

definition exRun :: "label list" where
  "exRun =
     exRunToWait @ [Teardown 0, Teardown 0, Teardown 0, Teardown 0, Teardown 0, OnceSkip 1]"


section \<open>Properties\<close>

subsection \<open>Basic facts\<close>

lemma trace_emit: "trace (emit a s) = trace s @ [a]"
  by (simp add: emit_def)

lemma eventLoopSend_trace: "trace (snd (eventLoopSend e s)) = trace s @ [Send e]"
  by (simp add: eventLoopSend_def emit_def)

lemma MovePendingToActive_active:
  "MovePendingToActive c cs = Inr cs' \<Longrightarrow> c \<in> set (ActiveConns cs')"
  by (auto simp add: MovePendingToActive_def ActiveConns_def Let_def split: if_splits)

lemmas exDefs = exEnv_def exState_def exConfig_def exTorrent_def exConn_def newState_def start_def

subsection \<open>AddTorrent\<close>

text \<open>
  Claim C2. Every call of \<open>AddTorrent\<close> returns (its sends never block) a channel of capacity
  1. If the archive lookup fails, that error is the one value in the channel, the event
  loop is untouched and no event has been sent. If the lookup succeeds and the loop has
  been stopped, \<open>Send\<close> returns false and \<open>ErrSchedulerStopped\<close> is the one value in the
  channel. (Otherwise the channel is still empty and the \<open>newTorrentEvent\<close> is queued.)
\<close>

theorem AddTorrent_result_channel:
  "\<exists>errc s' ch. AddTorrent E mi s = Some (errc, s') \<and> chans s' errc = Some ch \<and> cap ch = 1 \<and>
     (case GetTorrent E (miName mi) (miInfoHash mi) of
        Inl err \<Rightarrow>
          buf ch = [Some err] \<and> eventLoop s' = eventLoop s \<and>
          trace s' = trace s @ [ChanSend errc (Some err)]
      | Inr t \<Rightarrow>
          if stopped (eventLoop s)
          then buf ch = [Some ErrSchedulerStopped] \<and>
               fst (eventLoopSend (newTorrentEvent t errc) s) = False \<and>
               trace s' = trace s @ [Send (newTorrentEvent t errc),
                                     ChanSend errc (Some ErrSchedulerStopped)]
          else buf ch = [] \<and>
               queue (eventLoop s') = queue (eventLoop s) @ [newTorrentEvent t errc] \<and>
               trace s' = trace s @ [Send (newTorrentEvent t errc)])"
  by (cases "GetTorrent E (miName mi) (miInfoHash mi)")
     (simp_all add: AddTorrent_def makeChan_def chanSend_def eventLoopSend_def emit_def)

theorem AddTorrent_result_channel_witness:
  "(\<exists>errc s'. AddTorrent exEnv \<lparr>miName = ''debian'', miInfoHash = InfoHash ''h2''\<rparr> exState
        = Some (errc, s') \<and>
      chans s' errc = Some \<lparr>cap = 1, buf = [Some (New ''torrent not found'')]\<rparr> \<and>
      trace s' = [ChanSend errc (Some (New ''torrent not found''))]) \<and>
   (\<exists>errc s'. AddTorrent exEnv \<lparr>miName = ''ubuntu'', miInfoHash = InfoHash ''h1''\<rparr>
        (exState\<lparr>eventLoop := \<lparr>stopped = True, queue = []\<rparr>\<rparr>) = Some (errc, s') \<and>
      chans s' errc = Some \<lparr>cap = 1, buf = [Some ErrSchedulerStopped]\<rparr> \<and>
      trace s' = [Send (newTorrentEvent exTorrent errc),
                  ChanSend errc (Some ErrSchedulerStopped)])"
  using AddTorrent_result_channel
          [of exEnv "\<lparr>miName = ''debian'', miInfoHash = InfoHash ''h2''\<rparr>" exState]
        AddTorrent_result_channel
          [of exEnv "\<lparr>miName = ''ubuntu'', miInfoHash = InfoHash ''h1''\<rparr>"
              "exState\<lparr>eventLoop := \<lparr>stopped = True, queue = []\<rparr>\<rparr>"]
  by (auto simp add: exDefs)

subsection \<open>Handshakes\<close>


lemma FormatInt_5000: "FormatInt 5000 = ''5000''"
  by (simp add: FormatInt_def digitsOf.simps)



subsection \<open>Adding a validated connection\<close>

text \<open>
  Claim C4. The torrent of the connection has no control. An incoming connection that the
  tracker admits then gets one: the dispatcher factory makes a dispatcher, the new
  control is stored under the torrent's info hash, and only after that the connection is
  handed to this dispatcher. An outgoing connection makes the add fail with an error,
  and the torrent controls are what they were: no dispatcher is made, no control stored.
\<close>

theorem addConn_without_control:
  assumes "map_of (torrentControls s) (tInfoHash t) = None"
  shows "(MovePendingToActive c (connState s) = Inr cs' \<longrightarrow>
            (\<exists>r s'. addIncomingConn E c t s = (r, s') \<and>
               map_of (torrentControls s') (tInfoHash t)
                 = Some (newTorrentControl (dispatcherFactoryNew E t)) \<and>
               trace s' = trace s @ [LookupControl (tInfoHash t), DispatcherNew t,
                                     StoreControl (tInfoHash t),
                                     AddConn (dispatcherFactoryNew E t) c])) \<and>
         (\<exists>err s'. addOutgoingConn E c t s = (Some err, s') \<and>
            torrentControls s' = torrentControls s \<and>
            (\<forall>a \<in> set (trace s'). a \<in> set (trace s) \<or> a = ConnClose c
                 \<or> a = LookupControl (tInfoHash t)))"
  using assms
  by (cases "MovePendingToActive c (connState s)";
      cases "dispatcherAddConn E (dispatcherFactoryNew E t) c")
     (auto simp add: addIncomingConn_def addOutgoingConn_def emit_def Let_def
       newTorrentControl_def update_conv')

lemma exMove:
  "MovePendingToActive (exConn p nc) (connState exState)
     = Inr \<lparr>pending = [], active = [((PeerID p, InfoHash ''h1''), exConn p nc)], blacklist = []\<rparr>"
  by (simp add: MovePendingToActive_def exDefs)

lemma exFacts:
  "tInfoHash exTorrent = InfoHash ''h1''"
  "trace exState = []"
  "torrentControls exState = []"
  "dispatcherFactoryNew exEnv t = \<lparr>dRef = 0, dTorrent = t\<rparr>"
  by (simp_all add: exDefs)

theorem addConn_without_control_witness:
  "map_of (torrentControls exState) (tInfoHash exTorrent) = None \<and>
   (\<exists>r s'. addIncomingConn exEnv (exConn ''peerB'' 7) exTorrent exState = (r, s') \<and>
      map_of (torrentControls s') (InfoHash ''h1'') =
        Some \<lparr>Errors = [], Dispatcher = \<lparr>dRef = 0, dTorrent = exTorrent\<rparr>, Complete = False\<rparr> \<and>
      trace s' = [LookupControl (InfoHash ''h1''), DispatcherNew exTorrent,
                  StoreControl (InfoHash ''h1''),
                  AddConn \<lparr>dRef = 0, dTorrent = exTorrent\<rparr> (exConn ''peerB'' 7)]) \<and>
   (\<exists>err s'. addOutgoingConn exEnv (exConn ''peerB'' 7) exTorrent exState = (Some err, s') \<and>
      torrentControls s' = [])"
proof -
  have none: "map_of (torrentControls exState) (tInfoHash exTorrent) = None"
    by (simp add: exFacts)
  from addConn_without_control
         [OF none, where c = "exConn ''peerB'' 7" and E = exEnv
            and cs' = "\<lparr>pending = [],
                        active = [((PeerID ''peerB'', InfoHash ''h1''), exConn ''peerB'' 7)],
                        blacklist = []\<rparr>"]
  show ?thesis
    by (auto simp add: exMove exFacts newTorrentControl_def)
qed

text \<open>
  Claim C5. When the tracker refuses to move the connection from pending to active, the
  add (incoming or outgoing) closes the connection and returns an error, and that is all
  it does: the only effect is the close, so no control has been looked up, no dispatcher
  made, no control stored, and the torrent controls and the tracker are unchanged. In the
  tracker modelled here a duplicate (peer, torrent) and a blacklisted peer are refused.
\<close>

theorem addConn_move_failure:
  assumes "MovePendingToActive c (connState s) = Inl err"
  shows "addIncomingConn E c t s =
           (Some (New (''cannot add conn to scheduler: '' @ Error err)), emit (ConnClose c) s) \<and>
         addOutgoingConn E c t s =
           (Some (New (''cannot add conn to scheduler: '' @ Error err)), emit (ConnClose c) s) \<and>
         torrentControls (emit (ConnClose c) s) = torrentControls s \<and>
         connState (emit (ConnClose c) s) = connState s \<and>
         trace (emit (ConnClose c) s) = trace s @ [ConnClose c]"
  using assms by (simp add: addIncomingConn_def addOutgoingConn_def emit_def)

theorem addConn_move_failure_witness:
  "MovePendingToActive (exConn ''peerB'' 8) (connState exBusy) = Inl (New ''duplicate connection'') \<and>
   MovePendingToActive (exConn ''peerZ'' 9) (connState exBusy) = Inl (New ''peer is blacklisted'') \<and>
   fst (addIncomingConn exEnv (exConn ''peerB'' 8) exTorrent exBusy)
     = Some (New ''cannot add conn to scheduler: duplicate connection'') \<and>
   trace (snd (addIncomingConn exEnv (exConn ''peerB'' 8) exTorrent exBusy))
     = [ConnClose (exConn ''peerB'' 8)] \<and>
   fst (addOutgoingConn exEnv (exConn ''peerZ'' 9) exTorrent exBusy)
     = Some (New ''cannot add conn to scheduler: peer is blacklisted'') \<and>
   trace (snd (addOutgoingConn exEnv (exConn ''peerZ'' 9) exTorrent exBusy))
     = [ConnClose (exConn ''peerZ'' 9)] \<and>
   torrentControls (snd (addOutgoingConn exEnv (exConn ''peerZ'' 9) exTorrent exBusy)) = []"
proof -
  have dup: "MovePendingToActive (exConn ''peerB'' 8) (connState exBusy)
               = Inl (New ''duplicate connection'')"
    by (simp add: MovePendingToActive_def exBusy_def exDefs)
  have bl: "MovePendingToActive (exConn ''peerZ'' 9) (connState exBusy)
              = Inl (New ''peer is blacklisted'')"
    by (simp add: MovePendingToActive_def exBusy_def exDefs)
  from addConn_move_failure [OF dup, of exEnv exTorrent]
       addConn_move_failure [OF bl, of exEnv exTorrent] dup bl
  show ?thesis
    by (simp add: emit_def) (simp add: exBusy_def exDefs)
qed

text \<open>
  Claim C10. The tracker has moved the connection to active. If the dispatcher then
  rejects it (\<open>AddConn\<close> returns an error), or if, for an outgoing connection, the torrent
  has no control, the add returns an error; none of its effects closes the connection,
  and the tracker still holds it as active.
\<close>

theorem addConn_error_after_move_leaves_conn_active:
  assumes mv: "MovePendingToActive c (connState s) = Inr cs'"
  shows "(dispatcherAddConn E (targetDispatcher E t s) c = Some err \<longrightarrow>
            (\<exists>s'. addIncomingConn E c t s =
                (Some (New (''cannot add conn to dispatcher: '' @ Error err)), s') \<and>
              connState s' = cs' \<and> c \<in> set (ActiveConns (connState s')) \<and>
              (\<forall>a \<in> set (drop (length (trace s)) (trace s')).
                  a \<noteq> ConnClose c \<and> a \<noteq> NetClose (cNC c)))) \<and>
         ((map_of (torrentControls s) (tInfoHash t) = None \<or>
           dispatcherAddConn E (targetDispatcher E t s) c = Some err) \<longrightarrow>
            (\<exists>e s'. addOutgoingConn E c t s = (Some e, s') \<and>
              connState s' = cs' \<and> c \<in> set (ActiveConns (connState s')) \<and>
              (\<forall>a \<in> set (drop (length (trace s)) (trace s')).
                  a \<noteq> ConnClose c \<and> a \<noteq> NetClose (cNC c))))"
  using mv MovePendingToActive_active [OF mv]
  by (cases "map_of (torrentControls s) (tInfoHash t)")
     (auto simp add: addIncomingConn_def addOutgoingConn_def emit_def Let_def targetDispatcher_def
        newTorrentControl_def)

theorem addConn_error_after_move_leaves_conn_active_witness:
  "dispatcherAddConn exEnv (targetDispatcher exEnv exTorrent exState) (exConn ''peerX'' 4)
     = Some (New ''conn rejected'') \<and>
   (\<exists>s'. addIncomingConn exEnv (exConn ''peerX'' 4) exTorrent exState
        = (Some (New ''cannot add conn to dispatcher: conn rejected''), s') \<and>
      ActiveConns (connState s') = [exConn ''peerX'' 4] \<and>
      ConnClose (exConn ''peerX'' 4) \<notin> set (trace s')) \<and>
   (\<exists>e s'. addOutgoingConn exEnv (exConn ''peerX'' 4) exTorrent exState = (Some e, s') \<and>
      ActiveConns (connState s') = [exConn ''peerX'' 4] \<and>
      ConnClose (exConn ''peerX'' 4) \<notin> set (trace s'))"
proof -
  have rej: "dispatcherAddConn exEnv (targetDispatcher exEnv exTorrent exState) (exConn ''peerX'' 4)
     = Some (New ''conn rejected'')"
    by (simp add: exDefs targetDispatcher_def)
  have tr: "trace exState = []"
    by (simp add: exDefs)
  from addConn_error_after_move_leaves_conn_active
         [OF exMove [of "''peerX''" 4],
          where E = exEnv and t = exTorrent and err = "New ''conn rejected''"] rej
  show ?thesis
    by (auto simp add: tr ActiveConns_def)
qed

subsection \<open>Announcing\<close>

lemma QueryEscape_unreserved: "\<forall>c \<in> set s. \<not> shouldEscape c \<Longrightarrow> QueryEscape s = s"
  by (induction s) (simp_all add: QueryEscape_def escapeChar_def)

lemma digit_unreserved: "n < 10 \<Longrightarrow> \<not> shouldEscape (''0123456789'' ! n)"
proof -
  assume "n < 10"
  then have "n \<in> {0, 1, 2, 3, 4, 5, 6, 7, 8, 9}" by auto
  then show ?thesis
    by (auto simp add: shouldEscape_def)
qed

lemma digitsOf_unreserved: "\<forall>c \<in> set (digitsOf n). \<not> shouldEscape c"
proof (induction n rule: digitsOf.induct)
  case (1 n)
  show ?case
  proof (cases "n < 10")
    case True
    then show ?thesis by (subst digitsOf.simps) (simp add: digit_unreserved)
  next
    case False
    with 1 show ?thesis
      by (subst digitsOf.simps) (simp add: digit_unreserved)
  qed
qed

lemma minus_unreserved: "\<not> shouldEscape CHR ''-''"
  by (simp add: shouldEscape_def)

lemma QueryEscape_FormatInt: "QueryEscape (FormatInt i) = FormatInt i"
  by (rule QueryEscape_unreserved) (simp add: FormatInt_def digitsOf_unreserved minus_unreserved)

lemma sint_sub_no_overflow:
  fixes a b :: "64 word"
  assumes "- (2 ^ 63) \<le> sint a - sint b" "sint a - sint b < 2 ^ 63"
  shows "sint (a - b) = sint a - sint b"
  using assms by (simp add: sint_word_ariths signed_take_bit_int_eq_self)

lemma announceValues_eq:
  "announceValues E t s =
     [(''info_hash'', [InfoHashString E (tInfoHash t)]),
      (''peer_id'', [PeerIDString E (peerID s)]),
      (''port'', [port s]),
      (''ip'', [ip s]),
      (''dc'', [zone s]),
      (''downloaded'', [FormatInt (sint (BytesDownloaded t))]),
      (''left'', [FormatInt (sint (Length t - BytesDownloaded t))]),
      (''uploaded'', [''0'']),
      (''event'', [[]])]"
  by (simp add: announceValues_def valuesAdd_def Let_def)

lemma sort_keys:
  "sort [''info_hash'', ''peer_id'', ''port'', ''ip'', ''dc'', ''downloaded'', ''left'',
         ''uploaded'', ''event'']
   = [''dc'', ''downloaded'', ''event'', ''info_hash'', ''ip'', ''left'', ''peer_id'', ''port'',
      ''uploaded'']"
  by code_simp

lemma QueryEscape_keys:
  "QueryEscape ''info_hash'' = ''info_hash''" "QueryEscape ''peer_id'' = ''peer_id''"
  "QueryEscape ''port'' = ''port''" "QueryEscape ''ip'' = ''ip''" "QueryEscape ''dc'' = ''dc''"
  "QueryEscape ''downloaded'' = ''downloaded''" "QueryEscape ''left'' = ''left''"
  "QueryEscape ''uploaded'' = ''uploaded''" "QueryEscape ''event'' = ''event''"
  "QueryEscape ''0'' = ''0''" "QueryEscape [] = []"
  by code_simp+

lemma Encode_announceValues:
  "Encode (announceValues E t s) =
     ''dc='' @ QueryEscape (zone s)
     @ ''&downloaded='' @ FormatInt (sint (BytesDownloaded t))
     @ ''&event=&info_hash='' @ QueryEscape (InfoHashString E (tInfoHash t))
     @ ''&ip='' @ QueryEscape (ip s)
     @ ''&left='' @ FormatInt (sint (Length t - BytesDownloaded t))
     @ ''&peer_id='' @ QueryEscape (PeerIDString E (peerID s))
     @ ''&port='' @ QueryEscape (port s) @ ''&uploaded=0''"
  unfolding announceValues_eq Encode_def
  apply (simp only: list.map fst_conv sort_keys)
  apply (simp add: QueryEscape_keys QueryEscape_FormatInt)
  done

text \<open>
  Claim C6. \<open>doAnnounce\<close> sends one request and no more (no retry): a GET for \<open>/announce\<close> on
  the tracker's address, under the configured announce timeout, whose query holds the nine
  parameters \<open>info_hash\<close>, \<open>peer_id\<close>, \<open>port\<close>, \<open>ip\<close>, \<open>dc\<close>, \<open>downloaded\<close>, \<open>left\<close>, \<open>uploaded\<close>
  and \<open>event\<close>, each once, and nothing else; \<open>uploaded\<close> is \<open>0\<close>, \<open>event\<close> is empty, and \<open>left\<close>
  is the \<open>int64\<close> difference of the torrent's length and the bytes downloaded, which is
  their difference as integers unless that overflows. The call returns an error exactly
  when the request fails, the status is not 200 or the body does not decode; when all
  three succeed it returns the decoded peers.
\<close>

theorem doAnnounce_request_and_result:
  fixes E t s
  defines "q \<equiv> ''dc='' @ QueryEscape (zone s)
      @ ''&downloaded='' @ FormatInt (sint (BytesDownloaded t))
      @ ''&event=&info_hash='' @ QueryEscape (InfoHashString E (tInfoHash t))
      @ ''&ip='' @ QueryEscape (ip s)
      @ ''&left='' @ FormatInt (sint (Length t - BytesDownloaded t))
      @ ''&peer_id='' @ QueryEscape (PeerIDString E (peerID s))
      @ ''&port='' @ QueryEscape (port s) @ ''&uploaded=0''"
  defines "req \<equiv> \<lparr>Method = ''GET'', Scheme = ''http'', Host = TrackerAddr (config s),
                      Path = ''/announce'', RawQuery = q\<rparr>"
  shows "\<exists>r s' rest. doAnnounce E t s = (r, s') \<and>
     map fst (announceValues E t s) =
       [''info_hash'', ''peer_id'', ''port'', ''ip'', ''dc'', ''downloaded'', ''left'',
        ''uploaded'', ''event''] \<and>
     trace s' = trace s @ HttpDo (AnnounceTimeout (config s)) req # rest \<and>
     set rest \<subseteq> {BodyClose} \<and>
     (isl r \<longleftrightarrow>
        (case clientDo E (AnnounceTimeout (config s)) req of
           Inl err \<Rightarrow> True
         | Inr resp \<Rightarrow> StatusCode resp \<noteq> 200 \<or> isl (bencodeUnmarshal E (Body resp)))) \<and>
     (\<forall>resp peers. clientDo E (AnnounceTimeout (config s)) req = Inr resp \<and>
        StatusCode resp = 200 \<and> bencodeUnmarshal E (Body resp) = Inr peers \<longrightarrow> r = Inr peers) \<and>
     (- (2 ^ 63) \<le> sint (Length t) - sint (BytesDownloaded t) \<and>
      sint (Length t) - sint (BytesDownloaded t) < 2 ^ 63 \<longrightarrow>
        map_of (announceValues E t s) ''left''
          = Some [FormatInt (sint (Length t) - sint (BytesDownloaded t))])"
proof -
  have enc: "Encode (announceValues E t s) = q"
    unfolding q_def by (rule Encode_announceValues)
  have keys: "map fst (announceValues E t s) =
       [''info_hash'', ''peer_id'', ''port'', ''ip'', ''dc'', ''downloaded'', ''left'',
        ''uploaded'', ''event'']"
    by (simp add: announceValues_eq)
  have left: "- (2 ^ 63) \<le> sint (Length t) - sint (BytesDownloaded t) \<and>
      sint (Length t) - sint (BytesDownloaded t) < 2 ^ 63 \<longrightarrow>
        map_of (announceValues E t s) ''left''
          = Some [FormatInt (sint (Length t) - sint (BytesDownloaded t))]"
    by (simp add: announceValues_eq sint_sub_no_overflow)
  show ?thesis
  proof (cases "clientDo E (AnnounceTimeout (config s)) req")
    case (Inl err)
    with left show ?thesis
      by (simp add: doAnnounce_def Let_def enc req_def [symmetric] trace_emit keys)
  next
    case (Inr resp)
    with left show ?thesis
      by (cases "bencodeUnmarshal E (Body resp)")
         (simp_all add: doAnnounce_def Let_def enc req_def [symmetric] trace_emit keys)
  qed
qed

lemma exStrings:
  "QueryEscape ''dc 1'' = ''dc+1''" "QueryEscape ''h1'' = ''h1''"
  "QueryEscape ''10.0.0.1'' = ''10.0.0.1''" "QueryEscape ''peerA'' = ''peerA''"
  "QueryEscape ''5000'' = ''5000''" "FormatInt 40 = ''40''" "FormatInt 60 = ''60''"
  by code_simp+

lemma exAnnounceFacts:
  "zone exState = ''dc 1''" "ip exState = ''10.0.0.1''" "port exState = ''5000''"
  "peerID exState = PeerID ''peerA''" "config exState = exConfig"
  "TrackerAddr exConfig = ''tracker:80''" "AnnounceTimeout exConfig = 5"
  "InfoHashString exEnv (InfoHash x) = x" "PeerIDString exEnv (PeerID x) = x"
  "Length exTorrent = 100" "BytesDownloaded exTorrent = 40"
  by (simp_all add: exDefs FormatInt_5000)

theorem doAnnounce_request_and_result_witness:
  "\<exists>s' rest. doAnnounce exEnv exTorrent exState = (Inr [], s') \<and>
     trace s' =
       HttpDo 5 \<lparr>Method = ''GET'', Scheme = ''http'', Host = ''tracker:80'', Path = ''/announce'',
                RawQuery = ''dc=dc+1&downloaded=40&event=&info_hash=h1&ip=10.0.0.1&left=60''
                           @ ''&peer_id=peerA&port=5000&uploaded=0''\<rparr> # rest \<and>
     set rest \<subseteq> {BodyClose} \<and>
     map_of (announceValues exEnv exTorrent exState) ''left'' = Some [''60'']"
proof -
  have sub: "sint (100 - 40 :: 64 word) = 60" "sint (100 :: 64 word) = 100"
    "sint (40 :: 64 word) = 40"
    by simp_all
  have resp: "clientDo exEnv 5 \<lparr>Method = ''GET'', Scheme = ''http'', Host = ''tracker:80'',
       Path = ''/announce'',
       RawQuery = ''dc=dc+1&downloaded=40&event=&info_hash=h1&ip=10.0.0.1&left=60''
                           @ ''&peer_id=peerA&port=5000&uploaded=0''\<rparr>
     = Inr \<lparr>StatusCode = 200, Body = ''d5:peerslee''\<rparr>"
    "bencodeUnmarshal exEnv ''d5:peerslee'' = Inr []"
    by (simp_all add: exEnv_def)
  from doAnnounce_request_and_result [of exEnv exTorrent exState] resp
  show ?thesis
    by (simp add: exAnnounceFacts exFacts exStrings sub) blast
qed

text \<open>
  Claim C7. An announce attempt sends exactly one event, after \<open>doAnnounce\<close> has returned
  (which itself sends none): an \<open>announceFailureEvent\<close> with the dispatcher when \<open>doAnnounce\<close>
  failed, an \<open>announceResponseEvent\<close> with the torrent's info hash and the returned peers
  when it succeeded.
\<close>

theorem announce_one_event:
  "\<exists>r s1. doAnnounce E (dTorrent d) s = (r, s1) \<and>
     (\<forall>e. Send e \<notin> set (drop (length (trace s)) (trace s1))) \<and>
     trace (announce E d s) =
       trace s1 @ [Send (case r of Inl err \<Rightarrow> announceFailureEvent d
                         | Inr peers \<Rightarrow> announceResponseEvent (tInfoHash (dTorrent d)) peers)]"
proof (cases "clientDo E (AnnounceTimeout (config s))
    \<lparr>Method = ''GET'', Scheme = ''http'', Host = TrackerAddr (config s), Path = ''/announce'',
     RawQuery = Encode (announceValues E (dTorrent d) s)\<rparr>")
  case (Inl err)
  then show ?thesis
    by (simp add: announce_def doAnnounce_def Let_def eventLoopSend_trace trace_emit)
next
  case (Inr resp)
  then show ?thesis
    by (cases "bencodeUnmarshal E (Body resp)")
       (simp_all add: announce_def doAnnounce_def Let_def eventLoopSend_trace trace_emit)
qed

theorem announce_one_event_witness:
  "filter (\<lambda>a. case a of Send e \<Rightarrow> True | _ \<Rightarrow> False)
     (trace (announce exEnv \<lparr>dRef = 0, dTorrent = exTorrent\<rparr> exState))
     = [Send (announceResponseEvent (InfoHash ''h1'') [])] \<and>
   filter (\<lambda>a. case a of Send e \<Rightarrow> True | _ \<Rightarrow> False)
     (trace (announce exEnv \<lparr>dRef = 0, dTorrent = exTorrent\<rparr>
        (exState\<lparr>config := exConfig\<lparr>TrackerAddr := ''busy:80''\<rparr>\<rparr>)))
     = [Send (announceFailureEvent \<lparr>dRef = 0, dTorrent = exTorrent\<rparr>)]"
proof -
  have ok: "doAnnounce exEnv exTorrent exState
      = (Inr [], emit BodyClose (emit (HttpDo 5
           \<lparr>Method = ''GET'', Scheme = ''http'', Host = ''tracker:80'', Path = ''/announce'',
            RawQuery = Encode (announceValues exEnv exTorrent exState)\<rparr>) exState))"
    by (simp add: doAnnounce_def Let_def exAnnounceFacts) (simp add: exEnv_def)
  have busy: "\<exists>e. doAnnounce exEnv exTorrent (exState\<lparr>config := exConfig\<lparr>TrackerAddr := ''busy:80''\<rparr>\<rparr>)
      = (Inl e, emit BodyClose (emit (HttpDo 5
           \<lparr>Method = ''GET'', Scheme = ''http'', Host = ''busy:80'', Path = ''/announce'',
            RawQuery = Encode (announceValues exEnv exTorrent
              (exState\<lparr>config := exConfig\<lparr>TrackerAddr := ''busy:80''\<rparr>\<rparr>))\<rparr>)
           (exState\<lparr>config := exConfig\<lparr>TrackerAddr := ''busy:80''\<rparr>\<rparr>)))"
    by (simp add: doAnnounce_def Let_def exAnnounceFacts) (simp add: exEnv_def)
  from announce_one_event [of exEnv "\<lparr>dRef = 0, dTorrent = exTorrent\<rparr>" exState]
       announce_one_event [of exEnv "\<lparr>dRef = 0, dTorrent = exTorrent\<rparr>"
          "exState\<lparr>config := exConfig\<lparr>TrackerAddr := ''busy:80''\<rparr>\<rparr>"]
       ok busy
  show ?thesis
    by (auto simp add: trace_emit exFacts)
qed

subsection \<open>Outgoing connections\<close>

text \<open>
  Claim C8. The dial and the send-then-receive handshake have succeeded, and the peer id
  of the handshaked connection is not the one expected. Then \<open>doInitOutgoingConn\<close> closes
  the connection and returns the error \<open>unexpected peer id from handshaked conn\<close>, and
  \<open>initOutgoingConn\<close> reports a \<open>failedHandshakeEvent\<close>: no \<open>outgoingConnEvent\<close> is sent.
\<close>

theorem outgoing_peer_id_mismatch:
  assumes "netDialTimeout E (ip' @ '':'' @ FormatInt port') (DialTimeout (config s)) = Inr nc"
    and "SendAndReceiveHandshake E nc t = Inr c"
    and "cPeerID c \<noteq> p"
  shows "\<exists>s'. doInitOutgoingConn E p ip' port' t s =
           (Inl (New ''unexpected peer id from handshaked conn''), s') \<and>
           trace s' = trace s @ [Dial (ip' @ '':'' @ FormatInt port') (DialTimeout (config s)),
                                 ConnClose c] \<and>
           trace (initOutgoingConn E p ip' port' t s) =
             trace s' @ [Send (failedHandshakeEvent p (tInfoHash t))] \<and>
           (\<forall>c' t'. Send (outgoingConnEvent c' t')
               \<notin> set (drop (length (trace s)) (trace (initOutgoingConn E p ip' port' t s))))"
  using assms
  by (simp add: initOutgoingConn_def doInitOutgoingConn_def eventLoopSend_trace trace_emit Let_def)

theorem outgoing_peer_id_mismatch_witness:
  "netDialTimeout exEnv (''10.0.0.2'' @ '':'' @ FormatInt 5000) (DialTimeout (config exState))
     = Inr 8 \<and>
   SendAndReceiveHandshake exEnv 8 exTorrent = Inr (exConn ''peerB'' 8) \<and>
   cPeerID (exConn ''peerB'' 8) \<noteq> PeerID ''peerC'' \<and>
   (\<exists>s'. doInitOutgoingConn exEnv (PeerID ''peerC'') ''10.0.0.2'' 5000 exTorrent exState
       = (Inl (New ''unexpected peer id from handshaked conn''), s') \<and>
      trace s' = [Dial ''10.0.0.2:5000'' 3, ConnClose (exConn ''peerB'' 8)] \<and>
      trace (initOutgoingConn exEnv (PeerID ''peerC'') ''10.0.0.2'' 5000 exTorrent exState)
        = [Dial ''10.0.0.2:5000'' 3, ConnClose (exConn ''peerB'' 8),
           Send (failedHandshakeEvent (PeerID ''peerC'') (InfoHash ''h1''))])"
proof -
  have dial: "netDialTimeout exEnv (''10.0.0.2'' @ '':'' @ FormatInt 5000)
      (DialTimeout (config exState)) = Inr 8"
    by (simp add: exDefs FormatInt_5000)
  have hs: "SendAndReceiveHandshake exEnv 8 exTorrent = Inr (exConn ''peerB'' 8)"
    by (simp add: exDefs)
  have ne: "cPeerID (exConn ''peerB'' 8) \<noteq> PeerID ''peerC''"
    by (simp add: exDefs)
  have cfg: "DialTimeout (config exState) = 3"
    by (simp add: exDefs)
  from outgoing_peer_id_mismatch [OF dial hs ne] dial hs ne
  show ?thesis
    by (auto simp add: exFacts FormatInt_5000 cfg)
qed

subsection \<open>Stopping: the invariant\<close>

lemma filter_tagged:
  "filter (\<lambda>(g', a). isStopCaller g') (map (Pair g) xs) = (if isStopCaller g then map (Pair g) xs else [])"
  by (induction xs) simp_all

lemma stopActs_commit:
  "stopActs (commit g s' \<sigma>) =
     stopActs \<sigma> @ (if isStopCaller g then drop (length (trace (sched \<sigma>))) (trace s') else [])"
  by (simp add: stopActs_def commit_def filter_tagged comp_def)

lemma commit_fields [simp]:
  "sched (commit g s' \<sigma>) = s'" "once (commit g s' \<sigma>) = once \<sigma>"
  "callers (commit g s' \<sigma>) = callers \<sigma>" "eventLoopG (commit g s' \<sigma>) = eventLoopG \<sigma>"
  "listenG (commit g s' \<sigma>) = listenG \<sigma>" "tickerG (commit g s' \<sigma>) = tickerG \<sigma>"
  by (simp_all add: commit_def)

lemma stopActs_update [simp]:
  "stopActs (\<sigma>\<lparr>callers := cs\<rparr>) = stopActs \<sigma>" "stopActs (\<sigma>\<lparr>once := x\<rparr>) = stopActs \<sigma>"
  "stopActs (\<sigma>\<lparr>eventLoopG := l\<rparr>) = stopActs \<sigma>" "stopActs (\<sigma>\<lparr>listenG := l\<rparr>) = stopActs \<sigma>"
  "stopActs (\<sigma>\<lparr>tickerG := l\<rparr>) = stopActs \<sigma>"
  by (simp_all add: stopActs_def)

lemma teardownAt_untouched:
  assumes "\<not> isStopCaller g" "untouched (sched \<sigma>) s'"
  shows "teardownAt pc (commit g s' \<sigma>) = teardownAt pc \<sigma>"
  using assms
  by (cases pc)
     (simp_all add: stopActs_commit untouched_def signalled_def loopsExited_def)

lemma stopInv_untouched:
  assumes "\<not> isStopCaller g" "untouched (sched \<sigma>) s'" "stopInv \<sigma>"
  shows "stopInv (commit g s' \<sigma>)"
proof -
  have w: "wgCounts (commit g s' \<sigma>)"
    using assms by (simp add: stopInv_def wgCounts_def untouched_def)
  show ?thesis
  proof (cases "once \<sigma>")
    case Fresh
    with assms w show ?thesis
      by (simp add: stopInv_def stopActs_commit untouched_def)
  next
    case Running
    with assms w show ?thesis
      by (simp add: stopInv_def teardownAt_untouched)
  next
    case Finished
    with assms w show ?thesis
      by (simp add: stopInv_def stopActs_commit untouched_def signalled_def loopsExited_def
          fullTeardown_def pendingErrors_def)
  qed
qed

lemma untouched_eventLoopSend: "untouched s (snd (eventLoopSend e s))"
  by (simp add: untouched_def eventLoopSend_def emit_def)

lemma untouched_emit: "untouched s (emit a s)"
  by (simp add: untouched_def emit_def)

lemma untouched_trans: "untouched s s1 \<Longrightarrow> untouched s1 s2 \<Longrightarrow> untouched s s2"
  by (simp add: untouched_def)

lemma untouched_refl: "untouched s s"
  by (simp add: untouched_def)

lemma untouched_handshakeIncomingConn: "untouched s (handshakeIncomingConn E nc s)"
  by (simp add: handshakeIncomingConn_def untouched_emit untouched_eventLoopSend split: sum.splits)

lemma untouched_doInitIncomingConn: "untouched s (snd (doInitIncomingConn E nc h s))"
  by (simp add: doInitIncomingConn_def untouched_emit untouched_refl split: sum.splits)

lemma untouched_initIncomingConn: "untouched s (initIncomingConn E nc h s)"
  using untouched_doInitIncomingConn [of s E nc h]
  by (auto simp add: initIncomingConn_def Let_def split: prod.splits
      intro: untouched_trans untouched_eventLoopSend)

lemma untouched_doInitOutgoingConn: "untouched s (snd (doInitOutgoingConn E p i po t s))"
  by (simp add: doInitOutgoingConn_def Let_def untouched_def emit_def split: sum.splits)

lemma untouched_initOutgoingConn: "untouched s (initOutgoingConn E p i po t s)"
  using untouched_doInitOutgoingConn [of s E p i po t]
  by (auto simp add: initOutgoingConn_def Let_def split: prod.splits
      intro: untouched_trans untouched_eventLoopSend)

lemma untouched_doAnnounce: "untouched s (snd (doAnnounce E t s))"
  by (simp add: doAnnounce_def Let_def untouched_def emit_def split: sum.splits)

lemma untouched_announce: "untouched s (announce E d s)"
  using untouched_doAnnounce [of s E "dTorrent d"]
  by (auto simp add: announce_def Let_def split: prod.splits
      intro: untouched_trans untouched_eventLoopSend)

lemma untouched_AddTorrent: "AddTorrent E mi s = Some (errc, s') \<Longrightarrow> untouched s s'"
  by (auto simp add: AddTorrent_def makeChan_def chanSend_def eventLoopSend_def emit_def
      untouched_def split: sum.splits if_splits option.splits)

lemma untouched_chanRecv: "chanRecv c s = Some s' \<Longrightarrow> untouched s s'"
  by (auto simp add: chanRecv_def untouched_def split: option.splits list.splits)

lemma teardownAt_callers [simp]:
  "teardownAt pc (\<sigma>\<lparr>callers := cs\<rparr>) = teardownAt pc \<sigma>"
  "teardownAt pc (\<sigma>\<lparr>once := x\<rparr>) = teardownAt pc \<sigma>"
  by (cases pc; simp add: loopsExited_def)+

lemma stopInv_RunningI:
  assumes "wgCounts \<sigma>" "once \<sigma> = Running" "callers \<sigma> i = InTeardown pc" "teardownAt pc \<sigma>"
    "\<And>j. j \<noteq> i \<Longrightarrow> waiting (callers \<sigma> j)"
  shows "stopInv \<sigma>"
  using assms by (auto simp add: stopInv_def)

lemma stopInv_RunningD:
  assumes "stopInv \<sigma>" "once \<sigma> = Running"
  obtains i pc where "callers \<sigma> i = InTeardown pc" "teardownAt pc \<sigma>"
    "\<And>j. j \<noteq> i \<Longrightarrow> waiting (callers \<sigma> j)"
  using assms by (auto simp add: stopInv_def)

lemma stopInv_wgCounts: "stopInv \<sigma> \<Longrightarrow> wgCounts \<sigma>"
  by (simp add: stopInv_def)

lemma stopInv_CallStop:
  assumes "stopInv \<sigma>" "step E (CallStop i) \<sigma> = Some \<sigma>'"
  shows "stopInv \<sigma>'"
proof -
  from assms(2) have idle: "callers \<sigma> i = Idle"
    and \<sigma>': "\<sigma>' = \<sigma>\<lparr>callers := (callers \<sigma>)(i := Called)\<rparr>"
    by (simp_all split: if_splits)
  show ?thesis
  proof (cases "once \<sigma>")
    case Fresh
    with assms(1) show ?thesis
      by (simp add: stopInv_def \<sigma>' wgCounts_def waiting_def)
  next
    case Running
    from stopInv_RunningD [OF assms(1) Running] obtain k pc
      where k: "callers \<sigma> k = InTeardown pc" "teardownAt pc \<sigma>"
        "\<And>j. j \<noteq> k \<Longrightarrow> waiting (callers \<sigma> j)"
      by blast
    from k(1) idle have "k \<noteq> i" by auto
    with k Running stopInv_wgCounts [OF assms(1)] show ?thesis
      by (intro stopInv_RunningI [of \<sigma>' k pc]) (simp_all add: \<sigma>' wgCounts_def waiting_def)
  next
    case Finished
    with assms(1) show ?thesis
      by (simp add: stopInv_def \<sigma>' wgCounts_def waiting_def loopsExited_def)
  qed
qed

lemma stopInv_OnceEnter:
  assumes "stopInv \<sigma>" "step E (OnceEnter i) \<sigma> = Some \<sigma>'"
  shows "stopInv \<sigma>'"
proof -
  from assms(2) have fresh: "once \<sigma> = Fresh"
    and \<sigma>': "\<sigma>' = \<sigma>\<lparr>once := Running, callers := (callers \<sigma>)(i := InTeardown AtCloseDone)\<rparr>"
    by (simp_all split: if_splits)
  from assms(1) fresh have "wgCounts \<sigma>" "stopActs \<sigma> = []" "\<not> doneClosed (sched \<sigma>)"
    "\<forall>j. waiting (callers \<sigma> j)"
    by (simp_all add: stopInv_def)
  then show ?thesis
    unfolding stopInv_def \<sigma>'
    by (auto simp add: wgCounts_def intro!: exI [of _ i])
qed

lemma stopInv_OnceSkip:
  assumes "stopInv \<sigma>" "step E (OnceSkip i) \<sigma> = Some \<sigma>'"
  shows "stopInv \<sigma>'"
proof -
  from assms(2) have fin: "once \<sigma> = Finished"
    and \<sigma>': "\<sigma>' = \<sigma>\<lparr>callers := (callers \<sigma>)(i := Returned)\<rparr>"
    by (simp_all split: if_splits)
  with assms(1) show ?thesis
    by (simp add: stopInv_def wgCounts_def loopsExited_def)
qed

lemma stopInv_exit:
  assumes inv: "stopInv \<sigma>"
    and loop: "eventLoopG \<sigma> = Looping \<or> listenG \<sigma> = Looping \<or> tickerG \<sigma> = Looping"
    and \<sigma>': "\<sigma>' = (commit g (wgDone (sched \<sigma>)) \<sigma>)\<lparr>eventLoopG := a, listenG := b, tickerG := c\<rparr>"
    and g: "\<not> isStopCaller g"
    and w: "wgCounts \<sigma>'"
  shows "stopInv \<sigma>'"
proof -
  have acts: "stopActs \<sigma>' = stopActs \<sigma>"
    by (simp add: \<sigma>' stopActs_def commit_def wgDone_def)
  have notExited: "\<not> loopsExited \<sigma>"
    using loop by (auto simp add: loopsExited_def)
  have sch: "doneClosed (sched \<sigma>') = doneClosed (sched \<sigma>)"
    "listenerClosed (sched \<sigma>') = listenerClosed (sched \<sigma>)"
    "stopped (eventLoop (sched \<sigma>')) = stopped (eventLoop (sched \<sigma>))"
    "once \<sigma>' = once \<sigma>" "callers \<sigma>' = callers \<sigma>"
    by (simp_all add: \<sigma>' wgDone_def)
  have early: "teardownAt pc \<sigma> \<Longrightarrow> teardownAt pc \<sigma>'" for pc
    using notExited by (cases pc) (simp_all add: acts sch signalled_def)
  show ?thesis
  proof (cases "once \<sigma>")
    case Fresh
    with inv w show ?thesis
      by (simp add: stopInv_def acts sch)
  next
    case Running
    from stopInv_RunningD [OF inv Running] obtain k pc
      where k: "callers \<sigma> k = InTeardown pc" "teardownAt pc \<sigma>"
        "\<And>j. j \<noteq> k \<Longrightarrow> waiting (callers \<sigma> j)"
      by blast
    with Running w early [of pc] show ?thesis
      by (intro stopInv_RunningI [of \<sigma>' k pc]) (simp_all add: sch)
  next
    case Finished
    with inv notExited show ?thesis
      by (simp add: stopInv_def)
  qed
qed

lemma stopInv_TickerExit:
  assumes "stopInv \<sigma>" "step E TickerExit \<sigma> = Some \<sigma>'"
  shows "stopInv \<sigma>'"
proof -
  from assms(2) have l: "tickerG \<sigma> = Looping"
    and \<sigma>': "\<sigma>' = (commit TickerG (wgDone (sched \<sigma>)) \<sigma>)\<lparr>tickerG := Exited\<rparr>"
    by (simp_all split: if_splits)
  from \<sigma>' have \<sigma>'': "\<sigma>' = (commit TickerG (wgDone (sched \<sigma>)) \<sigma>)
      \<lparr>eventLoopG := eventLoopG \<sigma>, listenG := listenG \<sigma>, tickerG := Exited\<rparr>"
    by (simp add: commit_def)
  from assms(1) l have "wgCounts \<sigma>'"
    by (simp add: stopInv_def wgCounts_def \<sigma>' wgDone_def)
  with assms(1) l \<sigma>'' show ?thesis
    by (intro stopInv_exit [where \<sigma> = \<sigma> and \<sigma>' = \<sigma>' and g = TickerG]) (simp_all add: isStopCaller_def)
qed

lemma stopInv_ListenExit:
  assumes "stopInv \<sigma>" "step E ListenExit \<sigma> = Some \<sigma>'"
  shows "stopInv \<sigma>'"
proof -
  from assms(2) have l: "listenG \<sigma> = Looping"
    and \<sigma>': "\<sigma>' = (commit ListenG (wgDone (sched \<sigma>)) \<sigma>)\<lparr>listenG := Exited\<rparr>"
    by (simp_all split: if_splits)
  from \<sigma>' have \<sigma>'': "\<sigma>' = (commit ListenG (wgDone (sched \<sigma>)) \<sigma>)
      \<lparr>eventLoopG := eventLoopG \<sigma>, listenG := Exited, tickerG := tickerG \<sigma>\<rparr>"
    by (simp add: commit_def)
  from assms(1) l have "wgCounts \<sigma>'"
    by (simp add: stopInv_def wgCounts_def \<sigma>' wgDone_def)
  with assms(1) l \<sigma>'' show ?thesis
    by (intro stopInv_exit [where \<sigma> = \<sigma> and \<sigma>' = \<sigma>' and g = ListenG]) (simp_all add: isStopCaller_def)
qed

lemma stopInv_EventLoopExit:
  assumes "stopInv \<sigma>" "step E EventLoopExit \<sigma> = Some \<sigma>'"
  shows "stopInv \<sigma>'"
proof -
  from assms(2) have l: "eventLoopG \<sigma> = Looping"
    and \<sigma>': "\<sigma>' = (commit EventLoopG (wgDone (sched \<sigma>)) \<sigma>)\<lparr>eventLoopG := Exited\<rparr>"
    by (simp_all split: if_splits)
  from \<sigma>' have \<sigma>'': "\<sigma>' = (commit EventLoopG (wgDone (sched \<sigma>)) \<sigma>)
      \<lparr>eventLoopG := Exited, listenG := listenG \<sigma>, tickerG := tickerG \<sigma>\<rparr>"
    by (simp add: commit_def)
  from assms(1) l have "wgCounts \<sigma>'"
    by (simp add: stopInv_def wgCounts_def \<sigma>' wgDone_def)
  with assms(1) l \<sigma>'' show ?thesis
    by (intro stopInv_exit [where \<sigma> = \<sigma> and \<sigma>' = \<sigma>' and g = EventLoopG]) (simp_all add: isStopCaller_def)
qed

lemma stopInv_Handle:
  assumes inv: "stopInv \<sigma>" and st: "step E (Handle tcs cs chs) \<sigma> = Some \<sigma>'"
  shows "stopInv \<sigma>'"
proof -
  from st have l: "eventLoopG \<sigma> = Looping"
    and \<sigma>': "\<sigma>' = commit EventLoopG
       ((sched \<sigma>)\<lparr>torrentControls := tcs, connState := cs, chans := chs,
          eventLoop := (eventLoop (sched \<sigma>))\<lparr>queue := tl (queue (eventLoop (sched \<sigma>)))\<rparr>\<rparr>) \<sigma>"
    by (simp_all split: if_splits)
  have acts: "stopActs \<sigma>' = stopActs \<sigma>"
    by (simp add: \<sigma>' stopActs_commit isStopCaller_def)
  have notExited: "\<not> loopsExited \<sigma>"
    using l by (simp add: loopsExited_def)
  have sch: "doneClosed (sched \<sigma>') = doneClosed (sched \<sigma>)"
    "listenerClosed (sched \<sigma>') = listenerClosed (sched \<sigma>)"
    "stopped (eventLoop (sched \<sigma>')) = stopped (eventLoop (sched \<sigma>))"
    "wg (sched \<sigma>') = wg (sched \<sigma>)"
    "once \<sigma>' = once \<sigma>" "callers \<sigma>' = callers \<sigma>" "eventLoopG \<sigma>' = eventLoopG \<sigma>"
    "listenG \<sigma>' = listenG \<sigma>" "tickerG \<sigma>' = tickerG \<sigma>"
    by (simp_all add: \<sigma>')
  have early: "teardownAt pc \<sigma> \<Longrightarrow> teardownAt pc \<sigma>'" for pc
    using notExited by (cases pc) (simp_all add: acts sch signalled_def)
  have w: "wgCounts \<sigma>'"
    using inv by (simp add: stopInv_def wgCounts_def sch)
  show ?thesis
  proof (cases "once \<sigma>")
    case Fresh
    with inv w show ?thesis
      by (simp add: stopInv_def acts sch)
  next
    case Running
    from stopInv_RunningD [OF inv Running] obtain k pc
      where k: "callers \<sigma> k = InTeardown pc" "teardownAt pc \<sigma>"
        "\<And>j. j \<noteq> k \<Longrightarrow> waiting (callers \<sigma> j)"
      by blast
    with Running w early [of pc] show ?thesis
      by (intro stopInv_RunningI [of \<sigma>' k pc]) (simp_all add: sch)
  next
    case Finished
    with inv notExited show ?thesis
      by (simp add: stopInv_def)
  qed
qed

lemma wgCounts_zero: "wgCounts \<sigma> \<Longrightarrow> wg (sched \<sigma>) = 0 \<Longrightarrow> loopsExited \<sigma>"
  by (cases "eventLoopG \<sigma>"; cases "listenG \<sigma>"; cases "tickerG \<sigma>")
     (simp_all add: wgCounts_def loopsExited_def)

lemma chanSend_effect:
  "chanSend c v s = Some s' \<Longrightarrow>
     trace s' = trace s @ [ChanSend c v] \<and> torrentControls s' = torrentControls s \<and>
     connState s' = connState s \<and> doneClosed s' = doneClosed s \<and>
     listenerClosed s' = listenerClosed s \<and> wg s' = wg s \<and> eventLoop s' = eventLoop s"
  by (auto simp add: chanSend_def emit_def split: option.splits if_splits)

lemma teardownStep_next:
  assumes at: "teardownAt pc \<sigma>" and w: "wgCounts \<sigma>"
    and st: "teardownStep pc (sched \<sigma>) = Some (Some pc', s')"
  shows "teardownAt pc' (commit (StopCaller i) s' \<sigma>) \<and> wg s' = wg (sched \<sigma>)"
proof (cases pc)
  case AtCloseDone
  with at st show ?thesis
    by (auto simp add: stopActs_commit isStopCaller_def emit_def split: if_splits)
next
  case AtListenerClose
  with at st show ?thesis
    by (auto simp add: stopActs_commit isStopCaller_def emit_def)
next
  case AtEventLoopStop
  with at st show ?thesis
    by (auto simp add: stopActs_commit isStopCaller_def emit_def signalled_def)
next
  case AtWait
  with st have z: "wg (sched \<sigma>) = 0" and pc': "pc' = AtRangeConns"
    and s': "s' = emit WgWait (sched \<sigma>)"
    by (auto split: if_splits)
  from wgCounts_zero [OF w z] at AtWait show ?thesis
    by (simp add: pc' s' stopActs_commit isStopCaller_def emit_def signalled_def loopsExited_def)
next
  case AtRangeConns
  with at st show ?thesis
    by (auto simp add: stopActs_commit isStopCaller_def loopsExited_def)
next
  case (AtCloseConns cs)
  show ?thesis
  proof (cases cs)
    case Nil
    with st AtCloseConns have pc': "pc' = AtNotify [] (torrentControls (sched \<sigma>))"
      and s': "s' = sched \<sigma>"
      by auto
    from at AtCloseConns Nil have "signalled (sched \<sigma>)" "loopsExited \<sigma>"
      "stopActs \<sigma> = [CloseDone, ListenerClose, EventLoopStop, WgWait]
         @ map ConnClose (ActiveConns (connState (sched \<sigma>)))"
      by auto
    then show ?thesis
      by (auto simp add: pc' s' stopActs_commit isStopCaller_def loopsExited_def
          intro!: exI [of _ "[]"])
  next
    case (Cons c cs')
    with st AtCloseConns have pc': "pc' = AtCloseConns cs'" and s': "s' = emit (ConnClose c) (sched \<sigma>)"
      by auto
    from at AtCloseConns Cons obtain closed
      where "ActiveConns (connState (sched \<sigma>)) = closed @ c # cs'"
        "stopActs \<sigma> = [CloseDone, ListenerClose, EventLoopStop, WgWait] @ map ConnClose closed"
        "signalled (sched \<sigma>)" "loopsExited \<sigma>"
      by auto
    then show ?thesis
      by (auto simp add: pc' s' stopActs_commit isStopCaller_def emit_def signalled_def
          loopsExited_def intro!: exI [of _ "closed @ [c]"])
  qed
next
  case (AtNotify errcs ctrls)
  from at AtNotify obtain visited notified
    where vis: "torrentControls (sched \<sigma>) = visited @ ctrls"
      and noti: "concat (map (\<lambda>(h, ctrl). Errors ctrl) visited) = notified @ errcs"
      and acts: "stopActs \<sigma> = [CloseDone, ListenerClose, EventLoopStop, WgWait]
           @ map ConnClose (ActiveConns (connState (sched \<sigma>)))
           @ map (\<lambda>errc. ChanSend errc (Some ErrSchedulerStopped)) notified"
      and sig: "signalled (sched \<sigma>)" and ex: "loopsExited \<sigma>"
    by auto
  show ?thesis
  proof (cases errcs)
    case (Cons c cs')
    with st AtNotify have pc': "pc' = AtNotify cs' ctrls"
      and snd: "chanSend c (Some ErrSchedulerStopped) (sched \<sigma>) = Some s'"
      by auto
    from chanSend_effect [OF snd] vis noti acts sig ex Cons show ?thesis
      by (auto simp add: pc' stopActs_commit isStopCaller_def signalled_def loopsExited_def
          intro!: exI [of _ visited] exI [of _ "notified @ [c]"])
  next
    case Nil
    show ?thesis
    proof (cases ctrls)
      case Nil
      with st AtNotify \<open>errcs = []\<close> show ?thesis by simp
    next
      case (Cons hc rest)
      obtain h ctrl where hc: "hc = (h, ctrl)" by (cases hc)
      with st AtNotify Cons \<open>errcs = []\<close> have pc': "pc' = AtNotify (Errors ctrl) rest"
        and s': "s' = sched \<sigma>"
        by auto
      from vis noti acts sig ex Cons hc \<open>errcs = []\<close> show ?thesis
        by (auto simp add: pc' s' stopActs_commit isStopCaller_def loopsExited_def
            intro!: exI [of _ "visited @ [(h, ctrl)]"] exI [of _ notified])
    qed
  qed
qed

lemma teardownStep_finish:
  assumes at: "teardownAt pc \<sigma>" and st: "teardownStep pc (sched \<sigma>) = Some (None, s')"
  shows "s' = sched \<sigma> \<and> signalled s' \<and> loopsExited \<sigma> \<and> stopActs \<sigma> = fullTeardown s'"
proof (cases pc)
  case (AtNotify errcs ctrls)
  with st have "errcs = []" "ctrls = []" "s' = sched \<sigma>"
    by (cases errcs; cases ctrls; auto)+
  with at AtNotify show ?thesis
    by (auto simp add: fullTeardown_def pendingErrors_def)
next
  case (AtCloseConns cs)
  with st show ?thesis by (cases cs) auto
qed (use st in \<open>auto split: if_splits\<close>)

lemma stopInv_Teardown:
  assumes inv: "stopInv \<sigma>" and st: "step E (Teardown i) \<sigma> = Some \<sigma>'"
  shows "stopInv \<sigma>'"
proof -
  from st obtain pc where pc: "callers \<sigma> i = InTeardown pc"
    by (cases "callers \<sigma> i") simp_all
  have run: "once \<sigma> = Running"
  proof (cases "once \<sigma>")
    case Fresh
    with inv have "waiting (callers \<sigma> i)" by (simp add: stopInv_def)
    with pc show ?thesis by (simp add: waiting_def)
  next
    case Finished
    with inv have "waiting (callers \<sigma> i) \<or> callers \<sigma> i = Returned" by (simp add: stopInv_def)
    with pc show ?thesis by (simp add: waiting_def)
  qed
  from stopInv_RunningD [OF inv run] obtain k pc0
    where k: "callers \<sigma> k = InTeardown pc0" "teardownAt pc0 \<sigma>"
      "\<And>j. j \<noteq> k \<Longrightarrow> waiting (callers \<sigma> j)"
    by blast
  from k(3) [of i] pc have "k = i" by (auto simp add: waiting_def)
  with k pc have at: "teardownAt pc \<sigma>" and others: "\<And>j. j \<noteq> i \<Longrightarrow> waiting (callers \<sigma> j)"
    by auto
  from st pc obtain r s' where ts: "teardownStep pc (sched \<sigma>) = Some (r, s')"
    by (cases "teardownStep pc (sched \<sigma>)") auto
  note w = stopInv_wgCounts [OF inv]
  show ?thesis
  proof (cases r)
    case (Some pc')
    with st pc ts have \<sigma>': "\<sigma>' = (commit (StopCaller i) s' \<sigma>)\<lparr>callers := (callers \<sigma>)(i := InTeardown pc')\<rparr>"
      by simp
    from ts Some have ts': "teardownStep pc (sched \<sigma>) = Some (Some pc', s')"
      by simp
    from teardownStep_next [OF at w ts', of i]
    have nx: "teardownAt pc' (commit (StopCaller i) s' \<sigma>)" "wg s' = wg (sched \<sigma>)"
      by blast+
    from w nx(2) have "wgCounts \<sigma>'"
      by (simp add: wgCounts_def \<sigma>')
    with nx(1) run others show ?thesis
      by (intro stopInv_RunningI [of \<sigma>' i pc']) (simp_all add: \<sigma>')
  next
    case None
    with st pc ts have \<sigma>': "\<sigma>' = (commit (StopCaller i) s' \<sigma>)
        \<lparr>once := Finished, callers := (callers \<sigma>)(i := Returned)\<rparr>"
      by simp
    from ts None have ts': "teardownStep pc (sched \<sigma>) = Some (None, s')"
      by simp
    note fin = teardownStep_finish [OF at ts']
    from w fin others show ?thesis
      by (auto simp add: stopInv_def \<sigma>' wgCounts_def loopsExited_def stopActs_commit)
  qed
qed

lemma stopInv_step:
  assumes "stopInv \<sigma>" "step E l \<sigma> = Some \<sigma>'"
  shows "stopInv \<sigma>'"
proof (cases l)
  case (CallStop i)
  with assms show ?thesis by (auto intro: stopInv_CallStop)
next
  case (OnceEnter i)
  with assms show ?thesis by (auto intro: stopInv_OnceEnter)
next
  case (OnceSkip i)
  with assms show ?thesis by (auto intro: stopInv_OnceSkip)
next
  case (Teardown i)
  with assms show ?thesis by (auto intro: stopInv_Teardown)
next
  case (TickerTick e)
  with assms show ?thesis
    by (auto simp add: isStopCaller_def split: if_splits
        intro!: stopInv_untouched untouched_eventLoopSend)
next
  case TickerExit
  with assms show ?thesis by (auto intro: stopInv_TickerExit)
next
  case ListenExit
  with assms show ?thesis by (auto intro: stopInv_ListenExit)
next
  case (Handle tcs cs chs)
  with assms show ?thesis by (auto intro: stopInv_Handle)
next
  case EventLoopExit
  with assms show ?thesis by (auto intro: stopInv_EventLoopExit)
next
  case (HandshakeIncoming nc)
  with assms show ?thesis
    by (auto simp add: isStopCaller_def intro!: stopInv_untouched untouched_handshakeIncomingConn)
next
  case (InitIncoming nc h)
  with assms show ?thesis
    by (auto simp add: isStopCaller_def intro!: stopInv_untouched untouched_initIncomingConn)
next
  case (InitOutgoing p i po t)
  with assms show ?thesis
    by (auto simp add: isStopCaller_def intro!: stopInv_untouched untouched_initOutgoingConn)
next
  case (Announce d)
  with assms show ?thesis
    by (auto simp add: isStopCaller_def intro!: stopInv_untouched untouched_announce)
next
  case (CallAddTorrent mi)
  with assms show ?thesis
    by (auto simp add: isStopCaller_def intro!: stopInv_untouched untouched_AddTorrent)
next
  case (Receive c)
  with assms show ?thesis
    by (auto simp add: isStopCaller_def intro!: stopInv_untouched untouched_chanRecv)
qed

lemma stopInv_run:
  "stopInv \<sigma> \<Longrightarrow> run E ls \<sigma> = Some \<sigma>' \<Longrightarrow> stopInv \<sigma>'"
proof (induction ls arbitrary: \<sigma>)
  case Nil
  then show ?case by simp
next
  case (Cons l ls)
  then show ?case
    by (cases "step E l \<sigma>") (auto dest: stopInv_step)
qed

lemma stopInv_initSys: "stopInv (initSys (newState pid ip' port' zone' cfg))"
  by (simp add: stopInv_def initSys_def newState_def start_def wgCounts_def stopActs_def
      waiting_def)

subsection \<open>Stop\<close>

lemma stopInv_reached:
  "run E ls (initSys (newState pid ip' port' zone' cfg)) = Some \<sigma> \<Longrightarrow> stopInv \<sigma>"
  by (rule stopInv_run [OF stopInv_initSys])

lemma stopInv_InTeardown:
  assumes "stopInv \<sigma>" "callers \<sigma> i = InTeardown pc"
  shows "once \<sigma> = Running \<and> teardownAt pc \<sigma> \<and> (\<forall>j. j \<noteq> i \<longrightarrow> waiting (callers \<sigma> j))"
proof -
  have run: "once \<sigma> = Running"
  proof (cases "once \<sigma>")
    case Fresh
    with assms(1) have "waiting (callers \<sigma> i)" by (simp add: stopInv_def)
    with assms(2) show ?thesis by (simp add: waiting_def)
  next
    case Finished
    with assms(1) have "waiting (callers \<sigma> i) \<or> callers \<sigma> i = Returned"
      by (simp add: stopInv_def)
    with assms(2) show ?thesis by (simp add: waiting_def)
  qed
  from stopInv_RunningD [OF assms(1) run] obtain k pc0
    where k: "callers \<sigma> k = InTeardown pc0" "teardownAt pc0 \<sigma>"
      "\<And>j. j \<noteq> k \<Longrightarrow> waiting (callers \<sigma> j)"
    by blast
  from k(3) [of i] assms(2) have "k = i" by (auto simp add: waiting_def)
  with k assms(2) run show ?thesis by auto
qed

lemma stopInv_Returned:
  assumes "stopInv \<sigma>" "callers \<sigma> i = Returned"
  shows "once \<sigma> = Finished \<and> signalled (sched \<sigma>) \<and> loopsExited \<sigma>
         \<and> stopActs \<sigma> = fullTeardown (sched \<sigma>)"
proof (cases "once \<sigma>")
  case Fresh
  with assms(1) have "waiting (callers \<sigma> i)" by (simp add: stopInv_def)
  with assms(2) show ?thesis by (simp add: waiting_def)
next
  case Running
  from stopInv_RunningD [OF assms(1) Running] obtain k pc
    where k: "callers \<sigma> k = InTeardown pc" "\<And>j. j \<noteq> k \<Longrightarrow> waiting (callers \<sigma> j)"
    by blast
  have "i = k"
  proof (rule ccontr)
    assume "i \<noteq> k"
    from k(2) [OF this] assms(2) show False by (simp add: waiting_def)
  qed
  with k(1) assms(2) show ?thesis by simp
next
  case Finished
  with assms(1) show ?thesis by (simp add: stopInv_def)
qed

lemma count_list_append: "count_list (xs @ ys) a = count_list xs a + count_list ys a"
  by (induction xs) simp_all


lemma count_list_absent: "a \<notin> set xs \<Longrightarrow> count_list xs a = 0"
  by (induction xs) auto






lemmas exRunDefs = exRun_def exRunToWait_def exSys_def initSys_def newState_def start_def
  exEnv_def exConfig_def exCtrl_def exConn_def exTorrent_def commit_def AddTorrent_def
  makeChan_def eventLoopSend_def emit_def chanSend_def wgDone_def ActiveConns_def
  pendingErrors_def


lemma exRun_state:
  "\<exists>\<sigma>. run exEnv exRun exSys = Some \<sigma> \<and> callers \<sigma> 0 = Returned \<and> callers \<sigma> 1 = Returned \<and>
     torrentControls (sched \<sigma>) = [(InfoHash ''h1'', exCtrl)] \<and>
     active (connState (sched \<sigma>)) = [((PeerID ''peerB'', InfoHash ''h1''), exConn ''peerB'' 7)] \<and>
     chans (sched \<sigma>) 0 = Some \<lparr>cap = 1, buf = [Some ErrSchedulerStopped]\<rparr>"
  by (simp add: exRunDefs)



lemma teardownAt_prefix:
  "teardownAt pc \<sigma> \<Longrightarrow> \<exists>rest. fullTeardown (sched \<sigma>) = stopActs \<sigma> @ rest"
  by (cases pc) (auto simp add: fullTeardown_def pendingErrors_def)

lemma fullTeardown_CloseDone: "count_list (fullTeardown s) CloseDone = 1"
  by (auto simp add: fullTeardown_def count_list_append intro: count_list_absent)

text \<open>
  Claim C9. With any number of callers of \<open>Stop\<close>, in every reachable state: at most one
  caller is inside the teardown; what the callers of \<open>Stop\<close> have done, all together, is
  a prefix of one teardown sequence, so no statement of it is ever executed a second time
  (the done channel is closed at most once); and a call of \<open>Stop\<close> has returned only if the
  \<open>Once\<close> is finished and the callers have done the whole sequence, exactly once.
\<close>

theorem Stop_once:
  assumes "run E ls (initSys (newState pid ip' port' zone' cfg)) = Some \<sigma>"
  shows "(\<forall>i j pc pc'. callers \<sigma> i = InTeardown pc \<and> callers \<sigma> j = InTeardown pc' \<longrightarrow> i = j) \<and>
         (\<exists>rest. fullTeardown (sched \<sigma>) = stopActs \<sigma> @ rest) \<and>
         count_list (stopActs \<sigma>) CloseDone \<le> 1 \<and>
         (\<forall>i. callers \<sigma> i = Returned \<longrightarrow>
            once \<sigma> = Finished \<and> stopActs \<sigma> = fullTeardown (sched \<sigma>) \<and>
            count_list (stopActs \<sigma>) CloseDone = 1)"
proof -
  note inv = stopInv_reached [OF assms]
  have one: "i = j" if "callers \<sigma> i = InTeardown pc" "callers \<sigma> j = InTeardown pc'" for i j pc pc'
  proof (rule ccontr)
    assume "i \<noteq> j"
    with stopInv_InTeardown [OF inv that(1)] have "waiting (callers \<sigma> j)" by auto
    with that(2) show False by (simp add: waiting_def)
  qed
  have pre: "\<exists>rest. fullTeardown (sched \<sigma>) = stopActs \<sigma> @ rest"
  proof (cases "once \<sigma>")
    case Fresh
    with inv show ?thesis by (simp add: stopInv_def)
  next
    case Running
    from stopInv_RunningD [OF inv Running] obtain k pc where "teardownAt pc \<sigma>" by blast
    then show ?thesis by (rule teardownAt_prefix)
  next
    case Finished
    with inv show ?thesis by (simp add: stopInv_def)
  qed
  then obtain rest where rest: "fullTeardown (sched \<sigma>) = stopActs \<sigma> @ rest" by blast
  have "count_list (stopActs \<sigma>) CloseDone + count_list rest CloseDone = 1"
    using fullTeardown_CloseDone [of "sched \<sigma>"] by (simp add: rest count_list_append)
  then have le: "count_list (stopActs \<sigma>) CloseDone \<le> 1" by simp
  have ret: "once \<sigma> = Finished \<and> stopActs \<sigma> = fullTeardown (sched \<sigma>) \<and>
            count_list (stopActs \<sigma>) CloseDone = 1" if "callers \<sigma> i = Returned" for i
    using stopInv_Returned [OF inv that] by (simp add: fullTeardown_CloseDone)
  from one pre le ret show ?thesis by blast
qed

theorem Stop_once_witness:
  "\<exists>\<sigma>. run exEnv exRun exSys = Some \<sigma> \<and> callers \<sigma> 0 = Returned \<and> callers \<sigma> 1 = Returned \<and>
     once \<sigma> = Finished \<and> count_list (stopActs \<sigma>) CloseDone = 1 \<and>
     stopActs \<sigma> = fullTeardown (sched \<sigma>)"
proof -
  from exRun_state obtain \<sigma>
    where r: "run exEnv exRun exSys = Some \<sigma>" and c: "callers \<sigma> 0 = Returned"
      "callers \<sigma> 1 = Returned"
    by blast
  from Stop_once [OF r [unfolded exSys_def]] c(2)
  have "once \<sigma> = Finished \<and> stopActs \<sigma> = fullTeardown (sched \<sigma>) \<and>
            count_list (stopActs \<sigma>) CloseDone = 1"
    by blast
  with r c show ?thesis by blast
qed

end
